theory Spec2Isabelle
  imports Complex_Main
begin

section \<open>Errors and message rendering\<close>

text \<open>
  Every \<^verbatim>\<open>throw\<close> of the JavaScript sources is a value of type \<open>error\<close>: the
  constructor is the class of the thrown object, its first argument the \<^verbatim>\<open>message\<close>.
  \<^verbatim>\<open>InsufficientCreditsError(message, required, available)\<close> carries its two amounts.
\<close>

datatype error =
    Error string
  | TypeError string
  | InsufficientCreditsError string int int
  | NotFoundError string
  | ConflictError string

fun error_message :: "error \<Rightarrow> string" where
  "error_message (Error m) = m"
| "error_message (TypeError m) = m"
| "error_message (InsufficientCreditsError m r a) = m"
| "error_message (NotFoundError m) = m"
| "error_message (ConflictError m) = m"

text \<open>Template literals render integers in decimal.\<close>

definition digit :: "nat \<Rightarrow> char" where
  "digit d = ''0123456789'' ! d"

function showNat :: "nat \<Rightarrow> string" where
  "showNat n = (if n < 10 then [digit n] else showNat (n div 10) @ [digit (n mod 10)])"
  by pat_completeness auto
termination
  by (relation "measure id") auto

declare showNat.simps [simp del]

definition showInt :: "int \<Rightarrow> string" where
  "showInt i = (if i < 0 then CHR ''-'' # showNat (nat (- i)) else showNat (nat i))"

section \<open>The credit ledger (class CreditService)\<close>

text \<open>
  The \<^verbatim>\<open>credit\<close> table holds one row per user: \<open>credit_tbl\<close> maps a user id to
  the row's \<^verbatim>\<open>amount\<close>. The \<^verbatim>\<open>logger.info\<close> lines that \<^verbatim>\<open>addCredits\<close> and
  \<^verbatim>\<open>deductCredits\<close> write on success are kept in \<open>audit\<close>; they are the only record
  of the reason tag of a ledger operation (the transaction table is a TODO of the source).
  A call of \<^verbatim>\<open>db.$transaction\<close> is one function application, so its reads and writes
  are one step. Failures of the database connection itself are not modelled, and
  \<^verbatim>\<open>amount\<close> is an unbounded integer.
\<close>

type_synonym userId = nat
type_synonym scanId = nat

datatype credit_event =
    CreditsAdded userId int string
  | CreditsDeducted userId int string

record credit_db =
  credit_tbl :: "userId \<rightharpoonup> int"
  audit :: "credit_event list"

record credit_check =
  hasSufficient :: bool
  currentAmount :: int
  requiredAmount :: int
  deficit :: int

definition getCreditBalance :: "userId \<Rightarrow> credit_db \<Rightarrow> credit_db \<times> int" where
  "getCreditBalance uid db =
     (case credit_tbl db uid of
        None \<Rightarrow> (db\<lparr>credit_tbl := (credit_tbl db)(uid \<mapsto> 0)\<rparr>, 0)
      | Some a \<Rightarrow> (db, a))"

definition addCredits :: "userId \<Rightarrow> int \<Rightarrow> string \<Rightarrow> credit_db \<Rightarrow> credit_db \<times> (error + int)" where
  "addCredits uid amount reason db =
     (if amount \<le> 0 then (db, Inl (Error ''Credit amount must be positive''))
      else if amount > 10000 then (db, Inl (Error ''Cannot add more than 10,000 credits at once''))
      else
        let credits = (case credit_tbl db uid of None \<Rightarrow> 0 | Some a \<Rightarrow> a);
            updated = credits + amount
        in (db\<lparr>credit_tbl := (credit_tbl db)(uid \<mapsto> updated),
                audit := audit db @ [CreditsAdded uid amount reason]\<rparr>,
            Inr updated))"

text \<open>
  The callback that \<^verbatim>\<open>deductCredits\<close> hands to \<^verbatim>\<open>db.$transaction\<close> issues two statements.
  \<open>deduct_check\<close> is the first, \<^verbatim>\<open>tx.credit.findUnique\<close>, with the two comparisons the
  callback makes in JavaScript on the row it read; \<open>deduct_update\<close> is the second,
  \<^verbatim>\<open>tx.credit.update\<close> with \<^verbatim>\<open>decrement\<close>, which subtracts from the amount the row has when
  the statement runs (it throws when the row is gone, which the outer \<^verbatim>\<open>catch\<close> turns into
  \<^verbatim>\<open>Failed to deduct credits\<close>). The call passes no isolation level and takes no lock.
\<close>

definition deduct_check :: "userId \<Rightarrow> int \<Rightarrow> credit_db \<Rightarrow> error + int" where
  "deduct_check uid amount db =
     (case credit_tbl db uid of
        None \<Rightarrow> Inl (InsufficientCreditsError ''No credit account found'' amount 0)
      | Some a \<Rightarrow>
          if a < amount
          then Inl (InsufficientCreditsError
                 (''Insufficient credits. Required: '' @ showInt amount @
                  '', Available: '' @ showInt a) amount a)
          else Inr a)"

definition deduct_update :: "userId \<Rightarrow> int \<Rightarrow> string \<Rightarrow> credit_db \<Rightarrow> credit_db \<times> (error + int)" where
  "deduct_update uid amount reason db =
     (case credit_tbl db uid of
        None \<Rightarrow> (db, Inl (Error ''Failed to deduct credits''))
      | Some a \<Rightarrow>
          (db\<lparr>credit_tbl := (credit_tbl db)(uid \<mapsto> a - amount),
              audit := audit db @ [CreditsDeducted uid amount reason]\<rparr>,
           Inr (a - amount)))"

text \<open>One call of \<^verbatim>\<open>deductCredits\<close> with no other statement between its two.\<close>

definition deductCredits :: "userId \<Rightarrow> int \<Rightarrow> string \<Rightarrow> credit_db \<Rightarrow> credit_db \<times> (error + int)" where
  "deductCredits uid amount reason db =
     (if amount \<le> 0 then (db, Inl (Error ''Deduction amount must be positive''))
      else
        case deduct_check uid amount db of
          Inl e \<Rightarrow> (db, Inl e)
        | Inr a \<Rightarrow> deduct_update uid amount reason db)"

definition checkSufficientCredits :: "userId \<Rightarrow> int \<Rightarrow> credit_db \<Rightarrow> credit_db \<times> credit_check" where
  "checkSufficientCredits uid required db =
     (let (db', cur) = getCreditBalance uid db;
          has = (cur \<ge> required)
      in (db', \<lparr>hasSufficient = has, currentAmount = cur, requiredAmount = required,
                deficit = (if has then 0 else required - cur)\<rparr>))"

text \<open>
  \<^verbatim>\<open>refundCredits\<close> delegates to \<^verbatim>\<open>addCredits\<close> with the reason prefixed by
  \<^verbatim>\<open>refund: \<close> and replaces whatever that throws by \<^verbatim>\<open>Failed to refund credits\<close>.
\<close>

definition refundCredits :: "userId \<Rightarrow> int \<Rightarrow> string \<Rightarrow> credit_db \<Rightarrow> credit_db \<times> (error + int)" where
  "refundCredits uid amount reason db =
     (case addCredits uid amount (''refund: '' @ reason) db of
        (db', Inl e) \<Rightarrow> (db', Inl (Error ''Failed to refund credits''))
      | (db', Inr r) \<Rightarrow> (db', Inr r))"











section \<open>The W3C validator client (utils/w3cValidator.js)\<close>

text \<open>
  One element of the \<^verbatim>\<open>messages\<close> array of the checker's JSON answer. A field that is
  absent in the JSON is \<open>None\<close>. The response itself is the \<^verbatim>\<open>messages\<close> array, or
  \<open>None\<close> when the field is missing or not an array.
\<close>

record w3c_raw_message =
  raw_type :: "string option"
  raw_subType :: "string option"
  raw_message :: "string option"
  raw_firstLine :: "int option"
  raw_lastLine :: "int option"
  raw_firstColumn :: "int option"
  raw_lastColumn :: "int option"
  raw_extract :: "string option"

type_synonym w3c_response = "w3c_raw_message list option"

datatype severity = Critical | High | Medium | Low

record w3c_message =
  msg_type :: string
  msg_text :: string
  msg_line :: "int option"
  msg_column :: "int option"
  msg_extract :: "string option"
  msg_severity :: "severity option"

record result_summary =
  errorCount :: nat
  warningCount :: nat

text \<open>
  A validation result. The timestamp \<^verbatim>\<open>summary.validatedAt\<close> and the development-only
  field \<^verbatim>\<open>raw\<close> are left out.
\<close>

record validation_result =
  url :: string
  isValid :: bool
  errors :: "w3c_message list"
  warnings :: "w3c_message list"
  summary :: result_summary

text \<open>JavaScript's \<^verbatim>\<open>a || b\<close> on a string (undefined and the empty string are falsy)
  and on a number (undefined and 0 are falsy).\<close>

definition str_or :: "string option \<Rightarrow> string \<Rightarrow> string" where
  "str_or a b = (case a of None \<Rightarrow> b | Some x \<Rightarrow> if x = [] then b else x)"

definition num_or :: "int option \<Rightarrow> int option \<Rightarrow> int option" where
  "num_or a b = (case a of None \<Rightarrow> b | Some x \<Rightarrow> if x = 0 then b else Some x)"

definition mapW3CSeverity :: "string option \<Rightarrow> severity" where
  "mapW3CSeverity subType =
     (if subType = Some ''fatal'' then Critical
      else if subType = Some ''error'' then High
      else if subType = Some ''warning'' then Medium
      else if subType = Some ''info'' then Low
      else Medium)"

definition processedMessage :: "w3c_raw_message \<Rightarrow> w3c_message" where
  "processedMessage m =
     \<lparr>msg_type = str_or (raw_type m) ''unknown'',
      msg_text = str_or (raw_message m) ''No message provided'',
      msg_line = num_or (raw_lastLine m) (raw_firstLine m),
      msg_column = num_or (raw_lastColumn m) (raw_firstColumn m),
      msg_extract = raw_extract m,
      msg_severity = Some (mapW3CSeverity (raw_subType m))\<rparr>"

fun processMessages ::
  "w3c_raw_message list \<Rightarrow> w3c_message list \<times> w3c_message list
     \<Rightarrow> w3c_message list \<times> w3c_message list" where
  "processMessages [] acc = acc"
| "processMessages (m # ms) (errs, warns) =
     (if raw_type m = Some ''error''
      then processMessages ms (errs @ [processedMessage m], warns)
      else if raw_type m = Some ''info'' \<and> raw_subType m = Some ''warning''
      then processMessages ms (errs, warns @ [processedMessage m])
      else processMessages ms (errs, warns))"

definition processW3CResult :: "w3c_response \<Rightarrow> string \<Rightarrow> validation_result" where
  "processW3CResult w3cResult u =
     (let (errs, warns) = (case w3cResult of None \<Rightarrow> ([], [])
                           | Some ms \<Rightarrow> processMessages ms ([], []))
      in \<lparr>url = u, isValid = (length errs = 0), errors = errs, warnings = warns,
          summary = \<lparr>errorCount = length errs, warningCount = length warns\<rparr>\<rparr>)"

text \<open>
  What the HTTP request of \<^verbatim>\<open>validateUrl\<close> can come back with: \<^verbatim>\<open>fetch\<close> rejects with a
  message, or there is a response with its status, its status text and the outcome of
  \<^verbatim>\<open>response.json()\<close> (a parse error message or the JSON answer).
\<close>

datatype w3c_http =
    W3CFetchFailed string
  | W3CResponse nat string "string + w3c_response"

definition response_ok :: "nat \<Rightarrow> bool" where
  "response_ok st = (200 \<le> st \<and> st \<le> 299)"

definition validateUrl :: "w3c_http \<Rightarrow> string \<Rightarrow> error + validation_result" where
  "validateUrl answer u =
     (let failed = (\<lambda>m. Inl (Error (''W3C validation failed for '' @ u @ '': '' @ m)))
      in case answer of
           W3CFetchFailed m \<Rightarrow> failed m
         | W3CResponse st statusText body \<Rightarrow>
             if \<not> response_ok st
             then failed (''W3C API returned '' @ showNat st @ '': '' @ statusText)
             else (case body of
                     Inl m \<Rightarrow> failed m
                   | Inr w3cResult \<Rightarrow> Inr (processW3CResult w3cResult u)))"

subsection \<open>The batch validator \<^verbatim>\<open>validateUrls\<close>\<close>

text \<open>
  The payload handed to the progress callback. The callback is a function of the payload
  that returns normally (\<open>None\<close>) or throws an error with a message (\<open>Some m\<close>); an
  absent callback is \<open>None\<close>. The loop state holds the arrays \<^verbatim>\<open>results\<close> and
  \<^verbatim>\<open>errors\<close> of the source and, in \<open>calls\<close>, the payload of every invocation of the
  callback. The one-second pause between requests is not modelled. The checker's answer
  to the \<open>i\<close>-th request of the batch for address \<open>u\<close> is \<open>w3c i u\<close>.
\<close>

record progress =
  completed :: nat
  total_urls :: nat
  current :: string
  result :: validation_result
  progress_error :: "string option"

type_synonym progress_callback = "progress \<Rightarrow> string option"

record batch_state =
  results :: "validation_result list"
  batch_errors :: "string list"
  calls :: "progress list"

definition failedResult :: "string \<Rightarrow> string \<Rightarrow> validation_result" where
  "failedResult u m =
     \<lparr>url = u, isValid = False,
      errors = [\<lparr>msg_type = ''validation_error'', msg_text = m, msg_line = None,
                 msg_column = None, msg_extract = None, msg_severity = Some Critical\<rparr>],
      warnings = [],
      summary = \<lparr>errorCount = 1, warningCount = 0\<rparr>\<rparr>"

text \<open>The \<^verbatim>\<open>catch\<close> block of the loop body; an error thrown by the callback here
  leaves \<^verbatim>\<open>validateUrls\<close>.\<close>

definition batch_catch ::
  "progress_callback option \<Rightarrow> nat \<Rightarrow> nat \<Rightarrow> string \<Rightarrow> string \<Rightarrow> batch_state
     \<Rightarrow> error + batch_state" where
  "batch_catch cb i n u m st =
     (let failed = failedResult u m;
          st1 = st\<lparr>results := results st @ [failed], batch_errors := batch_errors st @ [m]\<rparr>
      in case cb of
           None \<Rightarrow> Inr st1
         | Some f \<Rightarrow>
             let p = \<lparr>completed = i + 1, total_urls = n, current = u, result = failed,
                      progress_error = Some m\<rparr>;
                 st2 = st1\<lparr>calls := calls st1 @ [p]\<rparr>
             in (case f p of None \<Rightarrow> Inr st2 | Some m2 \<Rightarrow> Inl (Error m2)))"

text \<open>One iteration: the \<^verbatim>\<open>try\<close> block, falling into the \<^verbatim>\<open>catch\<close> block on a throw.\<close>

definition batch_step ::
  "progress_callback option \<Rightarrow> (nat \<Rightarrow> string \<Rightarrow> w3c_http) \<Rightarrow> nat \<Rightarrow> nat \<Rightarrow> string
     \<Rightarrow> batch_state \<Rightarrow> error + batch_state" where
  "batch_step cb w3c i n u st =
     (case validateUrl (w3c i u) u of
        Inl e \<Rightarrow> batch_catch cb i n u (error_message e) st
      | Inr r \<Rightarrow>
          let st1 = st\<lparr>results := results st @ [r]\<rparr>
          in case cb of
               None \<Rightarrow> Inr st1
             | Some f \<Rightarrow>
                 let p = \<lparr>completed = i + 1, total_urls = n, current = u, result = r,
                          progress_error = None\<rparr>;
                     st2 = st1\<lparr>calls := calls st1 @ [p]\<rparr>
                 in (case f p of None \<Rightarrow> Inr st2 | Some m \<Rightarrow> batch_catch cb i n u m st2))"

fun batch_loop ::
  "progress_callback option \<Rightarrow> (nat \<Rightarrow> string \<Rightarrow> w3c_http) \<Rightarrow> nat \<Rightarrow> nat \<Rightarrow> string list
     \<Rightarrow> batch_state \<Rightarrow> error + batch_state" where
  "batch_loop cb w3c n i [] st = Inr st"
| "batch_loop cb w3c n i (u # us) st =
     (case batch_step cb w3c i n u st of
        Inl e \<Rightarrow> Inl e
      | Inr st' \<Rightarrow> batch_loop cb w3c n (i + 1) us st')"

definition validateUrls_run ::
  "(nat \<Rightarrow> string \<Rightarrow> w3c_http) \<Rightarrow> string list \<Rightarrow> progress_callback option
     \<Rightarrow> error + batch_state" where
  "validateUrls_run w3c urls cb =
     batch_loop cb w3c (length urls) 0 urls \<lparr>results = [], batch_errors = [], calls = []\<rparr>"

definition validateUrls ::
  "(nat \<Rightarrow> string \<Rightarrow> w3c_http) \<Rightarrow> string list \<Rightarrow> progress_callback option
     \<Rightarrow> error + validation_result list" where
  "validateUrls w3c urls cb =
     (case validateUrls_run w3c urls cb of Inl e \<Rightarrow> Inl e | Inr st \<Rightarrow> Inr (results st))"

text \<open>What the batch returns for the \<open>i\<close>-th address when nothing but the checker
  can throw: the checker's processed answer, or the synthetic failed result.\<close>

definition outcome :: "(nat \<Rightarrow> string \<Rightarrow> w3c_http) \<Rightarrow> nat \<Rightarrow> string \<Rightarrow> validation_result" where
  "outcome w3c i u =
     (case validateUrl (w3c i u) u of
        Inl e \<Rightarrow> failedResult u (error_message e)
      | Inr r \<Rightarrow> r)"

definition outcome_progress ::
  "(nat \<Rightarrow> string \<Rightarrow> w3c_http) \<Rightarrow> nat \<Rightarrow> nat \<Rightarrow> string \<Rightarrow> progress" where
  "outcome_progress w3c n i u =
     \<lparr>completed = i + 1, total_urls = n, current = u, result = outcome w3c i u,
      progress_error = (case validateUrl (w3c i u) u of
                          Inl e \<Rightarrow> Some (error_message e) | Inr r \<Rightarrow> None)\<rparr>"

definition never_throws :: "progress_callback option \<Rightarrow> bool" where
  "never_throws cb = (case cb of None \<Rightarrow> True | Some f \<Rightarrow> \<forall>p. f p = None)"

text \<open>The payloads the callback was invoked with during a batch, in order.\<close>

definition progressCalls ::
  "(nat \<Rightarrow> string \<Rightarrow> w3c_http) \<Rightarrow> string list \<Rightarrow> progress_callback option \<Rightarrow> progress list" where
  "progressCalls w3c urls cb =
     (case validateUrls_run w3c urls cb of Inl e \<Rightarrow> [] | Inr st \<Rightarrow> calls st)"

definition consistent :: "validation_result \<Rightarrow> bool" where
  "consistent r = (isValid r \<longleftrightarrow> errors r = [])"

subsection \<open>JavaScript numbers for the percentage\<close>

text \<open>
  \<^verbatim>\<open>Math.round((summary.valid / summary.total) * 100)\<close> is computed on IEEE-754 doubles.
  A non-negative finite double is the pair \<open>(m, e)\<close> of a significand and an exponent,
  with value \<open>m * 2 ^ e\<close>. \<open>fl n d\<close> is the double nearest to the fraction \<open>n / d\<close>, with
  53 significant bits and ties to the even significand, as division and multiplication
  round their exact result. Overflow and subnormal numbers are not modelled: the operands
  here are counts of results, which are below \<open>2 ^ 53\<close>, and quotients of such counts.
\<close>

type_synonym double = "nat \<times> int"

function bitlen :: "nat \<Rightarrow> nat" where
  "bitlen n = (if n = 0 then 0 else Suc (bitlen (n div 2)))"
  by pat_completeness auto
termination
  by (relation "measure id") auto

declare bitlen.simps [simp del]

definition rne_div :: "nat \<Rightarrow> nat \<Rightarrow> nat" where
  "rne_div n d =
     (let q = n div d; r = n mod d
      in if 2 * r < d then q else if 2 * r > d then q + 1
         else if even q then q else q + 1)"

definition shift :: "nat \<times> nat \<Rightarrow> int \<Rightarrow> nat \<times> nat" where
  "shift f k = (case f of (n, d) \<Rightarrow>
     if 0 \<le> k then (n * 2 ^ nat k, d) else (n, d * 2 ^ nat (- k)))"

definition fl :: "nat \<Rightarrow> nat \<Rightarrow> double" where
  "fl n d =
     (if n = 0 then (0, 0)
      else
        let k1 = 53 + int (bitlen d) - int (bitlen n);
            (n1, d1) = shift (n, d) k1;
            k = (if n1 < d1 * 2 ^ 53 then k1 else k1 - 1);
            (n2, d2) = shift (n, d) k
        in (rne_div n2 d2, - k))"

definition toFrac :: "double \<Rightarrow> nat \<times> nat" where
  "toFrac x = (case x of (m, e) \<Rightarrow>
     if 0 \<le> e then (m * 2 ^ nat e, 1) else (m, 2 ^ nat (- e)))"

definition num :: "nat \<Rightarrow> double" where
  "num v = (v, 0)"

definition jsDiv :: "double \<Rightarrow> double \<Rightarrow> double" where
  "jsDiv a b = (case (toFrac a, toFrac b) of ((n1, d1), (n2, d2)) \<Rightarrow> fl (n1 * d2) (d1 * n2))"

definition jsMul :: "double \<Rightarrow> double \<Rightarrow> double" where
  "jsMul a b = (case (toFrac a, toFrac b) of ((n1, d1), (n2, d2)) \<Rightarrow> fl (n1 * n2) (d1 * d2))"

text \<open>\<^verbatim>\<open>Math.round\<close>: the nearest integer, a tie going up.\<close>

definition mathRound :: "double \<Rightarrow> int" where
  "mathRound x = (case toFrac x of (n, d) \<Rightarrow> int ((2 * n + d) div (2 * d)))"

text \<open>The real number a double stands for.\<close>

definition dval :: "double \<Rightarrow> real" where
  "dval x = (case x of (m, e) \<Rightarrow> real m * 2 powi e)"

text \<open>The rounding the claim writes, on the exact quotient: \<open>round (100 * v / t)\<close>.\<close>

definition exact_percentage :: "nat \<Rightarrow> nat \<Rightarrow> int" where
  "exact_percentage v t = int ((2 * (100 * v) + t) div (2 * t))"

subsection \<open>\<^verbatim>\<open>generateValidationSummary\<close>\<close>

record severity_breakdown =
  critical :: nat
  high :: nat
  medium :: nat
  low :: nat

record validation_summary =
  total :: nat
  valid :: nat
  invalid :: nat
  totalErrors :: nat
  totalWarnings :: nat
  errorTypes :: "string \<rightharpoonup> nat"
  warningTypes :: "string \<rightharpoonup> nat"
  severityBreakdown :: severity_breakdown
  validPercentage :: int

text \<open>\<^verbatim>\<open>types[type] = (types[type] || 0) + 1\<close>\<close>

definition bumpType :: "(string \<rightharpoonup> nat) \<Rightarrow> string \<Rightarrow> (string \<rightharpoonup> nat)" where
  "bumpType m t = m(t \<mapsto> (case m t of None \<Rightarrow> 0 | Some c \<Rightarrow> c) + 1)"

fun bumpSeverity :: "severity \<Rightarrow> severity_breakdown \<Rightarrow> severity_breakdown" where
  "bumpSeverity Critical b = b\<lparr>critical := critical b + 1\<rparr>"
| "bumpSeverity High b = b\<lparr>high := high b + 1\<rparr>"
| "bumpSeverity Medium b = b\<lparr>medium := medium b + 1\<rparr>"
| "bumpSeverity Low b = b\<lparr>low := low b + 1\<rparr>"

definition severity_or_medium :: "w3c_message \<Rightarrow> severity" where
  "severity_or_medium e = (case msg_severity e of None \<Rightarrow> Medium | Some v \<Rightarrow> v)"

definition countError :: "validation_summary \<Rightarrow> w3c_message \<Rightarrow> validation_summary" where
  "countError s e =
     s\<lparr>errorTypes := bumpType (errorTypes s) (str_or (Some (msg_type e)) ''unknown''),
       severityBreakdown := bumpSeverity (severity_or_medium e) (severityBreakdown s)\<rparr>"

definition countWarning :: "validation_summary \<Rightarrow> w3c_message \<Rightarrow> validation_summary" where
  "countWarning s w =
     s\<lparr>warningTypes := bumpType (warningTypes s) (str_or (Some (msg_type w)) ''unknown'')\<rparr>"

definition countResult :: "validation_summary \<Rightarrow> validation_result \<Rightarrow> validation_summary" where
  "countResult s r =
     (let s1 = (if isValid r then s\<lparr>valid := valid s + 1\<rparr> else s\<lparr>invalid := invalid s + 1\<rparr>);
          s2 = s1\<lparr>totalErrors := totalErrors s1 + length (errors r),
                  totalWarnings := totalWarnings s1 + length (warnings r)\<rparr>;
          s3 = foldl countError s2 (errors r)
      in foldl countWarning s3 (warnings r))"

definition initialSummary :: "nat \<Rightarrow> validation_summary" where
  "initialSummary n =
     \<lparr>total = n, valid = 0, invalid = 0, totalErrors = 0, totalWarnings = 0,
      errorTypes = Map.empty, warningTypes = Map.empty,
      severityBreakdown = \<lparr>critical = 0, high = 0, medium = 0, low = 0\<rparr>,
      validPercentage = 0\<rparr>"

definition generateValidationSummary :: "validation_result list \<Rightarrow> validation_summary" where
  "generateValidationSummary rs =
     (let s = foldl countResult (initialSummary (length rs)) rs
      in s\<lparr>validPercentage :=
             (if total s > 0 then mathRound (jsMul (jsDiv (num (valid s)) (num (total s))) (num 100))
              else 0)\<rparr>)"

text \<open>The error entries of a result list, and how many of them have a given severity.\<close>

definition all_errors :: "validation_result list \<Rightarrow> w3c_message list" where
  "all_errors rs = concat (map errors rs)"

definition severity_count :: "severity \<Rightarrow> w3c_message list \<Rightarrow> nat" where
  "severity_count v es = length (filter (\<lambda>e. severity_or_medium e = v) es)"

section \<open>The sitemap resolver (utils/sitemap.js)\<close>

text \<open>
  Three library calls are parameters of the model, gathered with the configuration in the
  record \<open>platform\<close>:
  \<^item> \<open>parseURL s\<close> is \<^verbatim>\<open>new URL(s)\<close>: \<open>None\<close> when the constructor throws, else the
    pair of \<^verbatim>\<open>protocol\<close> and the normalised \<^verbatim>\<open>toString()\<close>;
  \<^item> \<open>httpGet u\<close> is the outcome of \<^verbatim>\<open>fetch\<close> on the sitemap address;
  \<^item> \<open>parseString x\<close> is the outcome of xml2js on the text \<open>x\<close>: an error message or
    the parsed object;
  \<^item> \<open>maxSitemapUrls\<close> is \<^verbatim>\<open>appConfig.w3c.maxSitemapUrls\<close>.
  Of the parsed object the code reads \<^verbatim>\<open>urlset.url\<close> and \<^verbatim>\<open>sitemapindex.sitemap\<close>, each
  absent, one entry or an array of entries, and of an entry its \<^verbatim>\<open>loc\<close>, absent or an
  array of children. xml2js gives a child element as a text when the element has only
  text, and as an object when it has an attribute or an element of its own.
\<close>

datatype xml_node = Text string | Element

record sitemap_entry =
  loc :: "xml_node list option"

datatype 'a one_or_many = One 'a | Many "'a list"

record parsed_xml =
  urlset_url :: "sitemap_entry one_or_many option"
  sitemapindex_sitemap :: "sitemap_entry one_or_many option"

datatype http_result =
    FetchFailed string
  | Response nat string string

record platform =
  parseURL :: "string \<Rightarrow> (string \<times> string) option"
  httpGet :: "string \<Rightarrow> http_result"
  parseString :: "string \<Rightarrow> string + parsed_xml"
  maxSitemapUrls :: nat

text \<open>
  \<^verbatim>\<open>String.prototype.trim\<close>. A character of the model is a code unit below 256; the
  white space and line terminators of JavaScript in that range are TAB, LF, VT, FF, CR,
  the space and the no-break space U+00A0. The white space above that range (U+1680,
  U+2000 to U+200A, U+2028, U+2029, U+202F, U+205F, U+3000, U+FEFF) has no character in
  the model.
\<close>

definition isSpace :: "char \<Rightarrow> bool" where
  "isSpace c =
     (c \<in> {CHR 0x09, CHR 0x0A, CHR 0x0B, CHR 0x0C, CHR 0x0D, CHR '' '', CHR 0xA0})"

definition trim :: "string \<Rightarrow> string" where
  "trim s = rev (dropWhile isSpace (rev (dropWhile isSpace s)))"

definition isValidHttpUrl :: "platform \<Rightarrow> string \<Rightarrow> bool" where
  "isValidHttpUrl P s =
     (case parseURL P s of
        None \<Rightarrow> False
      | Some (protocol, href) \<Rightarrow> protocol = ''http:'' \<or> protocol = ''https:'')"

text \<open>\<^verbatim>\<open>validateUrl\<close> of utils/validation.ts, which returns the normalised address.\<close>

definition validation_validateUrl :: "platform \<Rightarrow> string \<Rightarrow> error + string" where
  "validation_validateUrl P s =
     (case parseURL P s of
        None \<Rightarrow> Inl (Error ''Invalid URL: Invalid URL'')
      | Some (protocol, href) \<Rightarrow>
          if protocol \<noteq> ''http:'' \<and> protocol \<noteq> ''https:''
          then Inl (Error ''Invalid URL: Only HTTP and HTTPS protocols are allowed'')
          else Inr href)"

fun toArray :: "'a one_or_many \<Rightarrow> 'a list" where
  "toArray (One x) = [x]"
| "toArray (Many xs) = xs"

text \<open>
  The body of the two \<^verbatim>\<open>for\<close> loops over the entries, pushing onto \<^verbatim>\<open>urls\<close>. A first
  \<^verbatim>\<open>loc\<close> child that is an object is truthy and has no \<^verbatim>\<open>trim\<close>: the call throws a
  TypeError, which ends the loop.
\<close>

fun pushLocs :: "platform \<Rightarrow> sitemap_entry list \<Rightarrow> string list \<Rightarrow> error + string list" where
  "pushLocs P [] urls = Inr urls"
| "pushLocs P (entry # entries) urls =
     (case loc entry of
        Some (Element # ls) \<Rightarrow> Inl (TypeError ''urlEntry.loc[0].trim is not a function'')
      | Some (Text l # ls) \<Rightarrow>
          if l \<noteq> [] \<and> trim l \<noteq> [] \<and> isValidHttpUrl P (trim l)
          then pushLocs P entries (urls @ [trim l])
          else pushLocs P entries urls
      | _ \<Rightarrow> pushLocs P entries urls)"

text \<open>\<^verbatim>\<open>[...new Set(urls)]\<close>: a set keeps the first occurrence of each element, in
  insertion order.\<close>

fun newSet :: "string list \<Rightarrow> string list \<Rightarrow> string list" where
  "newSet seen [] = seen"
| "newSet seen (x # xs) = (if x \<in> set seen then newSet seen xs else newSet (seen @ [x]) xs)"

text \<open>The \<^verbatim>\<open>try\<close> block of \<^verbatim>\<open>extractUrlsFromParsedXml\<close>.\<close>

definition extractUrls_try :: "platform \<Rightarrow> parsed_xml \<Rightarrow> error + string list" where
  "extractUrls_try P parsedXml =
     (case (case urlset_url parsedXml of
              None \<Rightarrow> Inr [] | Some es \<Rightarrow> pushLocs P (toArray es) []) of
        Inl e \<Rightarrow> Inl e
      | Inr urls1 \<Rightarrow>
          (case (case sitemapindex_sitemap parsedXml of
                   None \<Rightarrow> Inr urls1 | Some es \<Rightarrow> pushLocs P (toArray es) urls1) of
             Inl e \<Rightarrow> Inl e
           | Inr urls2 \<Rightarrow>
               let uniqueUrls = newSet [] urls2
               in Inr (filter (\<lambda>u. case validation_validateUrl P u of
                                       Inl e \<Rightarrow> False | Inr h \<Rightarrow> True) uniqueUrls)))"

text \<open>The \<^verbatim>\<open>catch\<close> block replaces whatever the \<^verbatim>\<open>try\<close> block throws.\<close>

definition extractUrlsFromParsedXml :: "platform \<Rightarrow> parsed_xml \<Rightarrow> error + string list" where
  "extractUrlsFromParsedXml P parsedXml =
     (case extractUrls_try P parsedXml of
        Inl e \<Rightarrow> Inl (Error ''Failed to extract URLs from sitemap'')
      | Inr validUrls \<Rightarrow> Inr validUrls)"

definition parseSitemap :: "platform \<Rightarrow> string \<Rightarrow> error + string list" where
  "parseSitemap P xmlContent =
     (case parseString P xmlContent of
        Inl m \<Rightarrow> Inl (Error (''XML parsing failed: '' @ m))
      | Inr parsed \<Rightarrow>
          (case extractUrlsFromParsedXml P parsed of
             Inl extractError \<Rightarrow> Inl extractError
           | Inr urls \<Rightarrow>
               if length urls = 0 then Inl (Error ''No URLs found in sitemap'')
               else if length urls > maxSitemapUrls P
               then Inl (Error (''Sitemap contains '' @ showNat (length urls) @
                                '' URLs, maximum allowed is '' @ showNat (maxSitemapUrls P)))
               else Inr urls))"

definition fetchSitemap :: "platform \<Rightarrow> string \<Rightarrow> error + string" where
  "fetchSitemap P sitemapUrl =
     (let failed = (\<lambda>m. Inl (Error (''Failed to fetch sitemap: '' @ m)))
      in case validation_validateUrl P sitemapUrl of
           Inl e \<Rightarrow> failed (error_message e)
         | Inr normalizedUrl \<Rightarrow>
             (case httpGet P normalizedUrl of
                FetchFailed m \<Rightarrow> failed m
              | Response st statusText content \<Rightarrow>
                  if \<not> response_ok st
                  then failed (''HTTP '' @ showNat st @ '': '' @ statusText)
                  else if content = [] \<or> length (trim content) = 0
                  then failed ''Empty sitemap content''
                  else Inr content))"

text \<open>
  The result of \<^verbatim>\<open>validateAndParseSitemap\<close>, which catches every error and reports it in
  \<^verbatim>\<open>isValid\<close> and \<^verbatim>\<open>error\<close>. The advisory \<^verbatim>\<open>warnings\<close> and the \<^verbatim>\<open>metadata\<close> are left out.
\<close>

record sitemap_validation =
  sv_isValid :: bool
  sv_error :: "string option"
  sv_urlCount :: nat
  sv_urls :: "string list"

definition validateAndParseSitemap :: "platform \<Rightarrow> string \<Rightarrow> sitemap_validation" where
  "validateAndParseSitemap P sitemapUrl =
     (let failed = (\<lambda>e. \<lparr>sv_isValid = False, sv_error = Some (error_message e),
                         sv_urlCount = 0, sv_urls = []\<rparr>)
      in case fetchSitemap P sitemapUrl of
           Inl e \<Rightarrow> failed e
         | Inr xmlContent \<Rightarrow>
             (case parseSitemap P xmlContent of
                Inl e \<Rightarrow> failed e
              | Inr urls \<Rightarrow> \<lparr>sv_isValid = True, sv_error = None,
                             sv_urlCount = length urls, sv_urls = urls\<rparr>))"

text \<open>The trimmed, non-empty first \<^verbatim>\<open>loc\<close> texts of the entries of a parsed sitemap, in
  document order, \<^verbatim>\<open>urlset\<close> before \<^verbatim>\<open>sitemapindex\<close>.\<close>

definition entry_locs :: "sitemap_entry list \<Rightarrow> string list" where
  "entry_locs es =
     concat (map (\<lambda>entry. case loc entry of
                             Some (Text l # ls) \<Rightarrow>
                               (if l \<noteq> [] \<and> trim l \<noteq> [] then [trim l] else [])
                           | _ \<Rightarrow> []) es)"

definition sitemap_entries :: "parsed_xml \<Rightarrow> sitemap_entry list" where
  "sitemap_entries parsedXml =
     (case urlset_url parsedXml of None \<Rightarrow> [] | Some es \<Rightarrow> toArray es) @
     (case sitemapindex_sitemap parsedXml of None \<Rightarrow> [] | Some es \<Rightarrow> toArray es)"

definition sitemap_locs :: "parsed_xml \<Rightarrow> string list" where
  "sitemap_locs parsedXml = entry_locs (sitemap_entries parsedXml)"

text \<open>An entry whose first \<^verbatim>\<open>loc\<close> child is an object.\<close>

definition loc_is_element :: "sitemap_entry \<Rightarrow> bool" where
  "loc_is_element entry = (case loc entry of Some (Element # ls) \<Rightarrow> True | _ \<Rightarrow> False)"

definition has_element_loc :: "parsed_xml \<Rightarrow> bool" where
  "has_element_loc parsedXml = list_ex loc_is_element (sitemap_entries parsedXml)"

section \<open>Scans: the worker (queues/scanQueue.js) and cancelScan (services/scan.service.js)\<close>

datatype scan_status = Pending | Processing | Success | Failed

fun showStatus :: "scan_status \<Rightarrow> string" where
  "showStatus Pending = ''pending''"
| "showStatus Processing = ''processing''"
| "showStatus Success = ''success''"
| "showStatus Failed = ''failed''"

record scan =
  userId :: userId
  sitemapUrl :: string
  status :: scan_status
  totalUrls :: nat
  finishedAt :: "nat option"
  errorMsg :: "string option"

record scan_result_row =
  row_scanId :: scanId
  row_url :: string
  row_errors :: "w3c_message list"
  row_warnings :: "w3c_message list"
  row_isValid :: bool

text \<open>The database: the credit ledger, the \<^verbatim>\<open>scan\<close> table by id and the rows of the
  \<^verbatim>\<open>scanResult\<close> table.\<close>

record db_state =
  credits :: credit_db
  scan_tbl :: "scanId \<rightharpoonup> scan"
  scanResult_tbl :: "scan_result_row list"

record job_data =
  job_scanId :: scanId
  job_userId :: userId
  job_sitemapUrl :: string

text \<open>
  What one execution of the worker meets outside the database: the platform, the
  checker's answers, whether \<^verbatim>\<open>db.scanResult.createMany\<close> throws (with which message), and
  the time of \<^verbatim>\<open>new Date()\<close>. The job progress written to the queue is not modelled.
\<close>

record environment =
  platform_of :: platform
  w3cAnswer :: "nat \<Rightarrow> string \<Rightarrow> w3c_http"
  createManyError :: "string option"
  clock :: nat

text \<open>\<^verbatim>\<open>db.scan.update\<close> throws when no row has the id.\<close>

definition scan_update :: "scanId \<Rightarrow> (scan \<Rightarrow> scan) \<Rightarrow> db_state \<Rightarrow> error + db_state" where
  "scan_update sid f db =
     (case scan_tbl db sid of
        None \<Rightarrow> Inl (Error ''Record to update not found.'')
      | Some s \<Rightarrow> Inr (db\<lparr>scan_tbl := (scan_tbl db)(sid \<mapsto> f s)\<rparr>))"

text \<open>The first statement of the worker's \<^verbatim>\<open>try\<close> block.\<close>

definition markProcessing :: "job_data \<Rightarrow> db_state \<Rightarrow> error + db_state" where
  "markProcessing job db = scan_update (job_scanId job) (\<lambda>s. s\<lparr>status := Processing\<rparr>) db"

text \<open>The worker's progress callback writes the job progress and a log line; it returns
  normally.\<close>

definition progressCallback :: progress_callback where
  "progressCallback p = None"

definition toRow :: "scanId \<Rightarrow> validation_result \<Rightarrow> scan_result_row" where
  "toRow sid r = \<lparr>row_scanId = sid, row_url = url r, row_errors = errors r,
                  row_warnings = warnings r, row_isValid = isValid r\<rparr>"

text \<open>The \<^verbatim>\<open>try\<close> block of the worker: the database as the block leaves it, and the
  error it throws or the summary it returns.\<close>

definition scanWorker_try ::
  "environment \<Rightarrow> job_data \<Rightarrow> db_state \<Rightarrow> db_state \<times> (error + validation_summary)" where
  "scanWorker_try env job db0 =
     (let sid = job_scanId job; uid = job_userId job in
      case markProcessing job db0 of
        Inl e \<Rightarrow> (db0, Inl e)
      | Inr db1 \<Rightarrow>
      let sitemapValidation = validateAndParseSitemap (platform_of env) (job_sitemapUrl job) in
      if \<not> sv_isValid sitemapValidation
      then (db1, Inl (Error (str_or (sv_error sitemapValidation) ''Invalid sitemap'')))
      else
      let urls = sv_urls sitemapValidation in
      case scan_update sid (\<lambda>s. s\<lparr>totalUrls := length urls\<rparr>) db1 of
        Inl e \<Rightarrow> (db1, Inl e)
      | Inr db2 \<Rightarrow>
      let (c3, creditCheck) = checkSufficientCredits uid (int (length urls)) (credits db2);
          db3 = db2\<lparr>credits := c3\<rparr> in
      if \<not> hasSufficient creditCheck
      then (db3, Inl (Error (''Insufficient credits. Required: '' @ showNat (length urls) @
                             '', Available: '' @ showInt (currentAmount creditCheck))))
      else
      case deductCredits uid (int (length urls)) (''sitemap_scan_'' @ showNat sid) (credits db3) of
        (c4, Inl e) \<Rightarrow> (db3\<lparr>credits := c4\<rparr>, Inl e)
      | (c4, Inr deducted) \<Rightarrow>
      let db4 = db3\<lparr>credits := c4\<rparr> in
      case validateUrls (w3cAnswer env) urls (Some progressCallback) of
        Inl e \<Rightarrow> (db4, Inl e)
      | Inr validationResults \<Rightarrow>
      case createManyError env of
        Some m \<Rightarrow> (db4, Inl (Error m))
      | None \<Rightarrow>
      let db5 = db4\<lparr>scanResult_tbl := scanResult_tbl db4 @ map (toRow sid) validationResults\<rparr>;
          smry = generateValidationSummary validationResults in
      case scan_update sid (\<lambda>s. s\<lparr>status := Success, finishedAt := Some (clock env)\<rparr>) db5 of
        Inl e \<Rightarrow> (db5, Inl e)
      | Inr db6 \<Rightarrow> (db6, Inr smry))"

text \<open>
  The inner \<^verbatim>\<open>try\<close> of the \<^verbatim>\<open>catch\<close> block: the refund, decided on the persisted
  \<^verbatim>\<open>totalUrls\<close>; an error of the refund is logged and dropped.
\<close>

definition refundIfDeducted :: "job_data \<Rightarrow> db_state \<Rightarrow> db_state" where
  "refundIfDeducted job db =
     (case scan_tbl db (job_scanId job) of
        None \<Rightarrow> db
      | Some s \<Rightarrow>
          if totalUrls s > 0
          then db\<lparr>credits := fst (refundCredits (job_userId job) (int (totalUrls s))
                                    (''scan_failure_'' @ showNat (job_scanId job)) (credits db))\<rparr>
          else db)"

text \<open>The \<^verbatim>\<open>catch\<close> block: the database as it leaves it and the error it throws, which
  is the caught one unless marking the scan failed throws itself.\<close>

definition scanWorker_catch ::
  "environment \<Rightarrow> job_data \<Rightarrow> error \<Rightarrow> db_state \<Rightarrow> db_state \<times> error" where
  "scanWorker_catch env job e db =
     (case scan_update (job_scanId job)
             (\<lambda>s. s\<lparr>status := Failed, finishedAt := Some (clock env),
                     errorMsg := Some (error_message e)\<rparr>) db of
        Inl e2 \<Rightarrow> (db, e2)
      | Inr db1 \<Rightarrow> (refundIfDeducted job db1, e))"

definition scanWorker ::
  "environment \<Rightarrow> job_data \<Rightarrow> db_state \<Rightarrow> db_state \<times> (error + validation_summary)" where
  "scanWorker env job db =
     (case scanWorker_try env job db of
        (db1, Inr smry) \<Rightarrow> (db1, Inr smry)
      | (db1, Inl e) \<Rightarrow> (case scanWorker_catch env job e db1 of (db2, e2) \<Rightarrow> (db2, Inl e2)))"

text \<open>
  The queue runs a job again while the worker throws, up to \<^verbatim>\<open>attempts: 3\<close> executions;
  each execution meets its own environment.
\<close>

definition attempts :: nat where
  "attempts = 3"

fun runAttempts :: "environment list \<Rightarrow> job_data \<Rightarrow> db_state \<Rightarrow> db_state" where
  "runAttempts [] job db = db"
| "runAttempts (env # envs) job db =
     (case scanWorker env job db of
        (db1, Inr smry) \<Rightarrow> db1
      | (db1, Inl e) \<Rightarrow> runAttempts envs job db1)"

definition processJob :: "environment list \<Rightarrow> job_data \<Rightarrow> db_state \<Rightarrow> db_state" where
  "processJob envs job db = runAttempts (take attempts envs) job db"

definition cancelScan :: "scanId \<Rightarrow> userId \<Rightarrow> nat \<Rightarrow> db_state \<Rightarrow> db_state \<times> (error + bool)" where
  "cancelScan sid uid now db =
     (case scan_tbl db sid of
        None \<Rightarrow> (db, Inl (NotFoundError ''Scan not found or not accessible''))
      | Some s \<Rightarrow>
          if userId s \<noteq> uid
          then (db, Inl (NotFoundError ''Scan not found or not accessible''))
          else if status s \<noteq> Pending \<and> status s \<noteq> Processing
          then (db, Inl (ConflictError (''Cannot cancel scan with status: '' @ showStatus (status s))))
          else (case scan_update sid
                       (\<lambda>s. s\<lparr>status := Failed, finishedAt := Some now,
                               errorMsg := Some ''Cancelled by user''\<rparr>) db of
                  Inl e \<Rightarrow> (db, Inl (Error ''Failed to cancel scan''))
                | Inr db1 \<Rightarrow> (db1, Inr True)))"

text \<open>The credits deducted for a scan: the amounts of the deductions logged with the
  scan's reason tag.\<close>

fun deductedFor :: "string \<Rightarrow> credit_event list \<Rightarrow> int" where
  "deductedFor tag [] = 0"
| "deductedFor tag (CreditsDeducted u a r # evs) =
     (if r = tag then a else 0) + deductedFor tag evs"
| "deductedFor tag (CreditsAdded u a r # evs) = deductedFor tag evs"

text \<open>The results of the batch over the addresses \<open>urls\<close> in an environment: the
  checker's processed answer or the synthetic failed result, address by address.\<close>

definition batch_results :: "environment \<Rightarrow> string list \<Rightarrow> validation_result list" where
  "batch_results env urls = map (\<lambda>i. outcome (w3cAnswer env) i (urls ! i)) [0..<length urls]"

definition statusOf :: "db_state \<Rightarrow> scanId \<Rightarrow> scan_status option" where
  "statusOf db sid = map_option status (scan_tbl db sid)"

definition balanceOf :: "db_state \<Rightarrow> userId \<Rightarrow> int option" where
  "balanceOf db uid = credit_tbl (credits db) uid"

subsection \<open>A sample run\<close>

text \<open>
  User 1 owns scan 7. The sitemap at \<^verbatim>\<open>https://site.test/sitemap.xml\<close> lists the pages
  \<^verbatim>\<open>/p1\<close> to \<^verbatim>\<open>/p5\<close> (or the first \<open>n\<close> of them); the checker finds every page valid.
\<close>

definition sample_parseURL :: "string \<Rightarrow> (string \<times> string) option" where
  "sample_parseURL s =
     (if take 8 s = ''https://'' then Some (''https:'', s)
      else if take 7 s = ''http://'' then Some (''http:'', s)
      else None)"

definition sample_pages :: "nat \<Rightarrow> parsed_xml" where
  "sample_pages n =
     \<lparr>urlset_url = Some (Many (take n
        [\<lparr>loc = Some [Text ''https://site.test/p1'']\<rparr>, \<lparr>loc = Some [Text ''https://site.test/p2'']\<rparr>,
         \<lparr>loc = Some [Text ''https://site.test/p3'']\<rparr>, \<lparr>loc = Some [Text ''https://site.test/p4'']\<rparr>,
         \<lparr>loc = Some [Text ''https://site.test/p5'']\<rparr>])),
      sitemapindex_sitemap = None\<rparr>"

definition sample_platform :: "nat \<Rightarrow> platform" where
  "sample_platform n =
     \<lparr>parseURL = sample_parseURL,
      httpGet = (\<lambda>u. Response 200 ''OK'' ''<urlset/>''),
      parseString = (\<lambda>x. Inr (sample_pages n)),
      maxSitemapUrls = 10000\<rparr>"

text \<open>
  A sitemap of two entries whose second \<^verbatim>\<open>loc\<close> carries an attribute, as in
  \<^verbatim>\<open><loc hreflang="en">https://b.test/</loc>\<close>: xml2js gives that \<^verbatim>\<open>loc\<close> as an object.
\<close>

definition attribute_pages :: parsed_xml where
  "attribute_pages =
     \<lparr>urlset_url = Some (Many [\<lparr>loc = Some [Text ''https://a.test/'']\<rparr>,
                                \<lparr>loc = Some [Element]\<rparr>]),
      sitemapindex_sitemap = None\<rparr>"

definition attribute_platform :: platform where
  "attribute_platform = (sample_platform 0)\<lparr>parseString := (\<lambda>x. Inr attribute_pages)\<rparr>"

text \<open>
  A sitemap with a duplicate, a \<^verbatim>\<open>loc\<close> wrapped in spaces, one behind a no-break space, an
  FTP address, an entry without \<^verbatim>\<open>loc\<close>, and a sitemap index entry.
\<close>

definition mixed_pages :: parsed_xml where
  "mixed_pages =
     \<lparr>urlset_url = Some (Many [\<lparr>loc = Some [Text ''https://a.test/'']\<rparr>,
                                \<lparr>loc = Some [Text '' https://a.test/ '']\<rparr>,
                                \<lparr>loc = Some [Text ''ftp://a.test/file'']\<rparr>,
                                \<lparr>loc = None\<rparr>,
                                \<lparr>loc = Some [Text (CHR 0xA0 # ''https://b.test/'')]\<rparr>]),
      sitemapindex_sitemap = Some (One \<lparr>loc = Some [Text ''https://a.test/'']\<rparr>)\<rparr>"

definition mixed_platform :: platform where
  "mixed_platform = (sample_platform 0)\<lparr>parseString := (\<lambda>x. Inr mixed_pages)\<rparr>"

definition sample_env :: "nat \<Rightarrow> string option \<Rightarrow> environment" where
  "sample_env n failure =
     \<lparr>platform_of = sample_platform n,
      w3cAnswer = (\<lambda>i u. W3CResponse 200 ''OK'' (Inr (Some []))),
      createManyError = failure,
      clock = 100\<rparr>"

definition unreachable_env :: environment where
  "unreachable_env =
     \<lparr>platform_of = (sample_platform 0)\<lparr>httpGet := (\<lambda>u. Response 404 ''Not Found'' [])\<rparr>,
      w3cAnswer = (\<lambda>i u. W3CFetchFailed ''unreachable''),
      createManyError = None,
      clock = 50\<rparr>"

text \<open>A checker that answers for \<^verbatim>\<open>https://a.test/\<close> and times out for every other
  address.\<close>

definition flaky_checker :: "nat \<Rightarrow> string \<Rightarrow> w3c_http" where
  "flaky_checker i u =
     (if u = ''https://a.test/'' then W3CResponse 200 ''OK'' (Inr (Some []))
      else W3CFetchFailed ''timeout'')"

definition sample_job :: job_data where
  "sample_job = \<lparr>job_scanId = 7, job_userId = 1, job_sitemapUrl = ''https://site.test/sitemap.xml''\<rparr>"

definition sample_scan :: scan where
  "sample_scan = \<lparr>userId = 1, sitemapUrl = ''https://site.test/sitemap.xml'', status = Pending,
                  totalUrls = 0, finishedAt = None, errorMsg = None\<rparr>"

definition sample_db :: "int \<Rightarrow> db_state" where
  "sample_db balance =
     \<lparr>credits = \<lparr>credit_tbl = [1 \<mapsto> balance], audit = []\<rparr>,
      scan_tbl = [7 \<mapsto> sample_scan],
      scanResult_tbl = []\<rparr>"

section \<open>Properties of the credit ledger\<close>

lemma deductCredits_unfold:
  "deductCredits uid amount reason db =
     (if amount \<le> 0 then (db, Inl (Error ''Deduction amount must be positive''))
      else case credit_tbl db uid of
             None \<Rightarrow> (db, Inl (InsufficientCreditsError ''No credit account found'' amount 0))
           | Some a \<Rightarrow>
               if a < amount
               then (db, Inl (InsufficientCreditsError
                       (''Insufficient credits. Required: '' @ showInt amount @
                        '', Available: '' @ showInt a) amount a))
               else (db\<lparr>credit_tbl := (credit_tbl db)(uid \<mapsto> a - amount),
                        audit := audit db @ [CreditsDeducted uid amount reason]\<rparr>,
                     Inr (a - amount)))"
  by (simp add: deductCredits_def deduct_check_def deduct_update_def split: option.splits)







text \<open>
  C4, as stated, fails: \<^verbatim>\<open>refundCredits\<close> goes through \<^verbatim>\<open>addCredits\<close>, whose ceiling of
  10000 credits per call rejects a refund of 10001 credits; the balance stays as it was.
\<close>

theorem refundCredits_ceiling_counterexample:
  "refundCredits 1 10001 ''scan_failure_7'' \<lparr>credit_tbl = [1 \<mapsto> 0], audit = []\<rparr>
     = (\<lparr>credit_tbl = [1 \<mapsto> 0], audit = []\<rparr>, Inl (Error ''Failed to refund credits''))"
  by (simp add: refundCredits_def addCredits_def)

text \<open>
  C4, amended: for every user and every amount from 1 to 10000, the refund increments the
  user's balance by the amount in one step (a missing row counts as balance 0 and is
  created) and succeeds with the new balance; an amount above 10000 is rejected and
  leaves the ledger unchanged.
\<close>

theorem refundCredits_within_ceiling:
  "(0 < amount \<and> amount \<le> 10000 \<longrightarrow>
      refundCredits uid amount reason db =
        (db\<lparr>credit_tbl := (credit_tbl db)
               (uid \<mapsto> (case credit_tbl db uid of None \<Rightarrow> 0 | Some a \<Rightarrow> a) + amount),
            audit := audit db @ [CreditsAdded uid amount (''refund: '' @ reason)]\<rparr>,
         Inr ((case credit_tbl db uid of None \<Rightarrow> 0 | Some a \<Rightarrow> a) + amount)))
   \<and> (10000 < amount \<longrightarrow>
      refundCredits uid amount reason db = (db, Inl (Error ''Failed to refund credits'')))"
  by (simp add: refundCredits_def addCredits_def Let_def)

theorem refundCredits_within_ceiling_witness:
  "(0::int) < 5 \<and> (5::int) \<le> 10000 \<and>
   refundCredits 1 5 ''scan_failure_7'' \<lparr>credit_tbl = [1 \<mapsto> 2], audit = []\<rparr> =
     (\<lparr>credit_tbl = [1 \<mapsto> 7], audit = [CreditsAdded 1 5 ''refund: scan_failure_7'']\<rparr>, Inr 7)"
  using refundCredits_within_ceiling
          [of 5 1 "''scan_failure_7''" "\<lparr>credit_tbl = [1 \<mapsto> 2], audit = []\<rparr>"]
  by simp

text \<open>
  C5, as stated, fails: for a user without a credit row the sufficiency check, which reads
  the balance through \<^verbatim>\<open>getCreditBalance\<close>, creates the row.
\<close>

theorem checkSufficientCredits_creates_row_counterexample:
  "fst (checkSufficientCredits 1 5 \<lparr>credit_tbl = Map.empty, audit = []\<rparr>)
     \<noteq> \<lparr>credit_tbl = Map.empty, audit = []\<rparr>"
  by (simp add: checkSufficientCredits_def getCreditBalance_def fun_eq_iff)

text \<open>
  C5, amended: for every user and every required amount the check returns
  \<^verbatim>\<open>{hasSufficient, currentAmount, requiredAmount, deficit}\<close> with
  \<open>hasSufficient = (required \<le> current)\<close> and \<open>deficit = required - current\<close> when
  insufficient, else 0; it changes no existing balance and writes nothing else; when the
  user has a credit row the state is unchanged, and when the user has none, a row with
  amount 0 is created.
\<close>

theorem checkSufficientCredits_result_and_frame:
  "checkSufficientCredits uid required db = (db', chk) \<Longrightarrow>
     currentAmount chk = (case credit_tbl db uid of None \<Rightarrow> 0 | Some a \<Rightarrow> a)
   \<and> requiredAmount chk = required
   \<and> hasSufficient chk = (required \<le> currentAmount chk)
   \<and> deficit chk = (if hasSufficient chk then 0 else required - currentAmount chk)
   \<and> audit db' = audit db
   \<and> (\<forall>u a. credit_tbl db u = Some a \<longrightarrow> credit_tbl db' u = Some a)
   \<and> (credit_tbl db uid \<noteq> None \<longrightarrow> db' = db)
   \<and> (credit_tbl db uid = None \<longrightarrow> db' = db\<lparr>credit_tbl := (credit_tbl db)(uid \<mapsto> 0)\<rparr>)"
  by (auto simp: checkSufficientCredits_def getCreditBalance_def Let_def split: option.splits)

theorem checkSufficientCredits_result_and_frame_witness:
  "checkSufficientCredits 1 5 \<lparr>credit_tbl = [1 \<mapsto> 2], audit = []\<rparr> =
     (\<lparr>credit_tbl = [1 \<mapsto> 2], audit = []\<rparr>,
      \<lparr>hasSufficient = False, currentAmount = 2, requiredAmount = 5, deficit = 3\<rparr>)
   \<and> deficit \<lparr>hasSufficient = False, currentAmount = 2, requiredAmount = 5, deficit = 3\<rparr>
       = (5::int) - 2"
proof -
  have run: "checkSufficientCredits 1 5 \<lparr>credit_tbl = [1 \<mapsto> 2], audit = []\<rparr> =
     (\<lparr>credit_tbl = [1 \<mapsto> 2], audit = []\<rparr>,
      \<lparr>hasSufficient = False, currentAmount = 2, requiredAmount = 5, deficit = 3\<rparr>)"
    by (simp add: checkSufficientCredits_def getCreditBalance_def)
  from checkSufficientCredits_result_and_frame [OF run] run show ?thesis by simp
qed





section \<open>Properties of the validator\<close>

lemma consistent_processW3CResult: "consistent (processW3CResult r u)"
  by (simp add: consistent_def processW3CResult_def split: option.splits prod.splits)

lemma url_processW3CResult: "url (processW3CResult r u) = u"
  by (simp add: processW3CResult_def split: option.splits prod.splits)

lemma consistent_failedResult: "consistent (failedResult u m)"
  by (simp add: consistent_def failedResult_def)

lemma validateUrl_Inr:
  "validateUrl a u = Inr r \<Longrightarrow> consistent r \<and> url r = u"
  by (auto simp: validateUrl_def Let_def consistent_processW3CResult url_processW3CResult
       split: w3c_http.splits if_splits sum.splits)

lemma consistent_outcome: "consistent (outcome w3c i u)"
  by (auto simp: outcome_def consistent_failedResult dest: validateUrl_Inr split: sum.splits)

lemma url_outcome: "url (outcome w3c i u) = u"
  by (auto simp: outcome_def failedResult_def dest: validateUrl_Inr split: sum.splits)

lemma batch_catch_consistent:
  "batch_catch cb i n u m st = Inr st' \<Longrightarrow> \<forall>r\<in>set (results st). consistent r
     \<Longrightarrow> \<forall>r\<in>set (results st'). consistent r"
  by (auto simp: batch_catch_def Let_def consistent_failedResult split: option.splits)

lemma batch_step_consistent:
  "batch_step cb w3c i n u st = Inr st' \<Longrightarrow> \<forall>r\<in>set (results st). consistent r
     \<Longrightarrow> \<forall>r\<in>set (results st'). consistent r"
  unfolding batch_step_def
  by (auto simp: Let_def split: sum.splits option.splits
       dest!: validateUrl_Inr batch_catch_consistent)

lemma batch_loop_consistent:
  "batch_loop cb w3c n i us st = Inr st' \<Longrightarrow> \<forall>r\<in>set (results st). consistent r
     \<Longrightarrow> \<forall>r\<in>set (results st'). consistent r"
proof (induction us arbitrary: i st)
  case Nil
  then show ?case by simp
next
  case (Cons u us)
  from Cons.prems(1) obtain st1 where
    s: "batch_step cb w3c i n u st = Inr st1" and l: "batch_loop cb w3c n (i + 1) us st1 = Inr st'"
    by (auto split: sum.splits)
  from batch_step_consistent [OF s Cons.prems(2)] Cons.IH [OF l] show ?case by blast
qed

lemma batch_step_never_throws:
  assumes "never_throws cb"
  shows "\<exists>st'. batch_step cb w3c i n u st = Inr st'
           \<and> results st' = results st @ [outcome w3c i u]
           \<and> calls st' = calls st @ (case cb of None \<Rightarrow> [] | Some f \<Rightarrow> [outcome_progress w3c n i u])"
  using assms
  by (auto simp: batch_step_def batch_catch_def never_throws_def outcome_def outcome_progress_def
        Let_def split: sum.splits option.splits)

lemma batch_loop_never_throws:
  assumes "never_throws cb"
  shows "\<exists>st'. batch_loop cb w3c n i us st = Inr st'
           \<and> results st' = results st @ map (\<lambda>(k, u). outcome w3c k u) (enumerate i us)
           \<and> calls st' = calls st @ (case cb of None \<Rightarrow> []
                 | Some f \<Rightarrow> map (\<lambda>(k, u). outcome_progress w3c n k u) (enumerate i us))"
proof (induction us arbitrary: i st)
  case Nil
  then show ?case by (simp split: option.splits)
next
  case (Cons u us)
  from batch_step_never_throws [OF assms, of w3c i n u st] obtain st1 where
    s: "batch_step cb w3c i n u st = Inr st1"
    and r: "results st1 = results st @ [outcome w3c i u]"
    and c: "calls st1 = calls st @ (case cb of None \<Rightarrow> [] | Some f \<Rightarrow> [outcome_progress w3c n i u])"
    by blast
  from Cons.IH [of "Suc i" st1] obtain st' where
    l: "batch_loop cb w3c n (Suc i) us st1 = Inr st'"
    and r': "results st' = results st1 @ map (\<lambda>(k, u). outcome w3c k u) (enumerate (Suc i) us)"
    and c': "calls st' = calls st1 @ (case cb of None \<Rightarrow> []
                 | Some f \<Rightarrow> map (\<lambda>(k, u). outcome_progress w3c n k u) (enumerate (Suc i) us))"
    by blast
  show ?case
    using s l r r' c c' by (simp split: option.splits)
qed

lemma batch_run_never_throws:
  assumes "never_throws cb"
  shows "\<exists>st. validateUrls_run w3c urls cb = Inr st
           \<and> results st = map (\<lambda>i. outcome w3c i (urls ! i)) [0..<length urls]
           \<and> calls st = (case cb of None \<Rightarrow> []
                 | Some f \<Rightarrow> map (\<lambda>i. outcome_progress w3c (length urls) i (urls ! i))
                               [0..<length urls])"
proof -
  from batch_loop_never_throws [OF assms, of w3c "length urls" 0 urls
         "\<lparr>results = [], batch_errors = [], calls = []\<rparr>"]
  obtain st where
    run: "validateUrls_run w3c urls cb = Inr st"
    and r: "results st = map (\<lambda>(k, u). outcome w3c k u) (enumerate 0 urls)"
    and c: "calls st = (case cb of None \<Rightarrow> []
                 | Some f \<Rightarrow> map (\<lambda>(k, u). outcome_progress w3c (length urls) k u) (enumerate 0 urls))"
    by (auto simp: validateUrls_run_def)
  have r': "results st = map (\<lambda>i. outcome w3c i (urls ! i)) [0..<length urls]"
    unfolding r by (auto intro!: nth_equalityI simp: nth_enumerate_eq)
  have c': "calls st = (case cb of None \<Rightarrow> []
          | Some f \<Rightarrow> map (\<lambda>i. outcome_progress w3c (length urls) i (urls ! i)) [0..<length urls])"
    unfolding c by (auto split: option.splits intro!: nth_equalityI simp: nth_enumerate_eq)
  from run r' c' show ?thesis by blast
qed

lemma validateUrls_never_throws:
  assumes "never_throws cb"
  shows "validateUrls w3c urls cb = Inr (map (\<lambda>i. outcome w3c i (urls ! i)) [0..<length urls])"
  using batch_run_never_throws [OF assms, of w3c urls] by (auto simp: validateUrls_def)

lemma progressCalls_never_throws:
  assumes "never_throws cb"
  shows "progressCalls w3c urls cb =
     (case cb of None \<Rightarrow> []
      | Some f \<Rightarrow> map (\<lambda>i. outcome_progress w3c (length urls) i (urls ! i)) [0..<length urls])"
  using batch_run_never_throws [OF assms, of w3c urls] by (auto simp: progressCalls_def)

lemma never_throws_progressCallback: "never_throws (Some progressCallback)"
  by (simp add: never_throws_def progressCallback_def)

text \<open>
  C7, as stated, fails: the progress callback runs inside the \<^verbatim>\<open>try\<close> block of the loop
  body and once more inside its \<^verbatim>\<open>catch\<close> block. A callback that throws on its first
  invocation, after the address has been validated, sends the loop body into the
  \<^verbatim>\<open>catch\<close> block: a second result is recorded for the same address and the callback is
  invoked a second time. A callback that throws on every invocation throws out of the
  \<^verbatim>\<open>catch\<close> block, and the batch fails as a whole.
\<close>

theorem validateUrls_throwing_callback_counterexample:
  "validateUrls flaky_checker [''https://a.test/'']
      (Some (\<lambda>p. if progress_error p = None then Some ''boom'' else None))
     = Inr [processW3CResult (Some []) ''https://a.test/'',
            failedResult ''https://a.test/'' ''boom'']
   \<and> map completed (progressCalls flaky_checker [''https://a.test/'']
          (Some (\<lambda>p. if progress_error p = None then Some ''boom'' else None))) = [1, 1]
   \<and> validateUrls flaky_checker [''https://a.test/''] (Some (\<lambda>p. Some ''boom''))
     = Inl (Error ''boom'')"
  by (simp add: validateUrls_def progressCalls_def validateUrls_run_def batch_step_def
        batch_catch_def validateUrl_def response_ok_def flaky_checker_def Let_def)

text \<open>
  C7, amended: for every list of addresses, every behaviour of the checker and every
  progress callback that returns normally (or none), the batch validator returns, and
  returns exactly one result per address in the order of the input: the checker's
  processed answer, or, when validating the address throws, the synthetic failed result
  (\<open>isValid = False\<close>, one error of severity critical carrying the message of the
  failure), after which the loop goes on with the next address. The callback is invoked
  exactly once per address, with the count of addresses done, the total, the address and
  its result.
\<close>

theorem validateUrls_one_result_per_url:
  assumes "never_throws cb"
  shows "validateUrls w3c urls cb = Inr (map (\<lambda>i. outcome w3c i (urls ! i)) [0..<length urls])
     \<and> (\<forall>rs. validateUrls w3c urls cb = Inr rs \<longrightarrow>
           length rs = length urls
         \<and> map url rs = urls
         \<and> (\<forall>i<length urls. \<forall>r. validateUrl (w3c i (urls ! i)) (urls ! i) = Inr r \<longrightarrow> rs ! i = r)
         \<and> (\<forall>i<length urls. \<forall>e. validateUrl (w3c i (urls ! i)) (urls ! i) = Inl e \<longrightarrow>
                rs ! i = failedResult (urls ! i) (error_message e)
              \<and> \<not> isValid (rs ! i)
              \<and> map msg_severity (errors (rs ! i)) = [Some Critical]
              \<and> map msg_text (errors (rs ! i)) = [error_message e]))
     \<and> progressCalls w3c urls cb =
         (case cb of None \<Rightarrow> []
          | Some f \<Rightarrow> map (\<lambda>i. outcome_progress w3c (length urls) i (urls ! i)) [0..<length urls])
     \<and> (cb \<noteq> None \<longrightarrow>
           length (progressCalls w3c urls cb) = length urls
         \<and> map completed (progressCalls w3c urls cb) = map Suc [0..<length urls]
         \<and> map current (progressCalls w3c urls cb) = urls)"
proof -
  let ?rs = "map (\<lambda>i. outcome w3c i (urls ! i)) [0..<length urls]"
  note v = validateUrls_never_throws [OF assms, of w3c urls]
  note c = progressCalls_never_throws [OF assms, of w3c urls]
  have len: "length ?rs = length urls" by simp
  have urls: "map url ?rs = urls"
    by (rule nth_equalityI) (simp_all add: url_outcome)
  have ok: "\<forall>i<length urls. \<forall>r. validateUrl (w3c i (urls ! i)) (urls ! i) = Inr r \<longrightarrow> ?rs ! i = r"
    by (simp add: outcome_def)
  have failed: "\<forall>i<length urls. \<forall>e. validateUrl (w3c i (urls ! i)) (urls ! i) = Inl e \<longrightarrow>
            ?rs ! i = failedResult (urls ! i) (error_message e)
          \<and> \<not> isValid (?rs ! i)
          \<and> map msg_severity (errors (?rs ! i)) = [Some Critical]
          \<and> map msg_text (errors (?rs ! i)) = [error_message e]"
    by (simp add: outcome_def failedResult_def)
  have once: "cb \<noteq> None \<longrightarrow>
           length (progressCalls w3c urls cb) = length urls
         \<and> map completed (progressCalls w3c urls cb) = map Suc [0..<length urls]
         \<and> map current (progressCalls w3c urls cb) = urls"
    unfolding c
    by (auto simp: outcome_progress_def intro!: nth_equalityI)
  from v c len urls ok failed once show ?thesis
    by (simp only: sum.inject) blast
qed

theorem validateUrls_one_result_per_url_witness:
  "never_throws (Some progressCallback)
   \<and> validateUrls flaky_checker [''https://a.test/'', ''https://b.test/''] (Some progressCallback)
      = Inr [processW3CResult (Some []) ''https://a.test/'',
             failedResult ''https://b.test/'' ''W3C validation failed for https://b.test/: timeout'']
   \<and> map completed (progressCalls flaky_checker [''https://a.test/'', ''https://b.test/'']
                       (Some progressCallback)) = [1, 2]"
proof -
  have two: "[0..<length [''https://a.test/'', ''https://b.test/'']] = [0, 1]"
    by (simp add: upt_rec)
  from validateUrls_one_result_per_url [OF never_throws_progressCallback,
         of flaky_checker "[''https://a.test/'', ''https://b.test/'']"]
  have "validateUrls flaky_checker [''https://a.test/'', ''https://b.test/''] (Some progressCallback)
          = Inr (map (\<lambda>i. outcome flaky_checker i ([''https://a.test/'', ''https://b.test/''] ! i))
                   [0, 1])"
    and "map completed (progressCalls flaky_checker [''https://a.test/'', ''https://b.test/'']
                       (Some progressCallback)) = map Suc [0, 1]"
    unfolding two by (simp_all add: outcome_progress_def)
  then show ?thesis
    using never_throws_progressCallback
    by (simp add: outcome_def validateUrl_def response_ok_def flaky_checker_def)
qed

text \<open>
  C8: every result that the validation client (\<^verbatim>\<open>processW3CResult\<close>, \<^verbatim>\<open>validateUrl\<close>) or
  the batch validator (the synthetic failed result included) produces has \<open>isValid\<close>
  equal to "the error list is empty", and so has every row the worker persists from them.
\<close>

theorem isValid_iff_no_errors:
  "consistent (processW3CResult w3cResult u)
   \<and> (\<forall>r. validateUrl answer u = Inr r \<longrightarrow> consistent r)
   \<and> consistent (failedResult u m)
   \<and> (\<forall>rs. validateUrls w3c urls cb = Inr rs \<longrightarrow>
         (\<forall>r\<in>set rs. consistent r)
       \<and> (\<forall>row\<in>set (map (toRow sid) rs). row_isValid row \<longleftrightarrow> row_errors row = []))"
proof -
  have "\<forall>rs. validateUrls w3c urls cb = Inr rs \<longrightarrow>
         (\<forall>r\<in>set rs. consistent r)
       \<and> (\<forall>row\<in>set (map (toRow sid) rs). row_isValid row \<longleftrightarrow> row_errors row = [])"
  proof (intro allI impI)
    fix rs assume "validateUrls w3c urls cb = Inr rs"
    then obtain st where st: "validateUrls_run w3c urls cb = Inr st" and rs: "rs = results st"
      by (auto simp: validateUrls_def split: sum.splits)
    from batch_loop_consistent [OF st [unfolded validateUrls_run_def]]
    have "\<forall>r\<in>set rs. consistent r" by (simp add: rs)
    then show "(\<forall>r\<in>set rs. consistent r)
       \<and> (\<forall>row\<in>set (map (toRow sid) rs). row_isValid row \<longleftrightarrow> row_errors row = [])"
      by (auto simp: toRow_def consistent_def)
  qed
  then show ?thesis
    using consistent_processW3CResult consistent_failedResult validateUrl_Inr by blast
qed

theorem isValid_iff_no_errors_witness:
  "consistent (processW3CResult
       (Some [\<lparr>raw_type = Some ''error'', raw_subType = Some ''fatal'', raw_message = Some ''Bad tag'',
               raw_firstLine = None, raw_lastLine = Some 3, raw_firstColumn = None,
               raw_lastColumn = Some 7, raw_extract = None\<rparr>]) ''https://a.test/'')
   \<and> \<not> isValid (processW3CResult
       (Some [\<lparr>raw_type = Some ''error'', raw_subType = Some ''fatal'', raw_message = Some ''Bad tag'',
               raw_firstLine = None, raw_lastLine = Some 3, raw_firstColumn = None,
               raw_lastColumn = Some 7, raw_extract = None\<rparr>]) ''https://a.test/'')
   \<and> isValid (processW3CResult (Some []) ''https://a.test/'')"
  using isValid_iff_no_errors [of "Some [\<lparr>raw_type = Some ''error'', raw_subType = Some ''fatal'',
               raw_message = Some ''Bad tag'',
               raw_firstLine = None, raw_lastLine = Some 3, raw_firstColumn = None,
               raw_lastColumn = Some 7, raw_extract = None\<rparr>]" "''https://a.test/''"]
  by (simp add: processW3CResult_def)


section \<open>Properties of the summary\<close>

lemma bitlen_numeral_simps:
  "bitlen 0 = 0"
  "bitlen 1 = 1"
  "bitlen (numeral k) = Suc (bitlen (numeral k div 2))"
  by (simp_all add: bitlen.simps)

lemmas double_defs = mathRound_def jsMul_def jsDiv_def num_def toFrac_def fl_def shift_def
  rne_div_def

lemma percentage_23_of_40: "mathRound (jsMul (jsDiv (num 23) (num 40)) (num 100)) = 57"
  by (simp add: double_defs bitlen_numeral_simps Let_def)

lemma severity_count_total:
  "severity_count Critical es + severity_count High es + severity_count Medium es
     + severity_count Low es = length es"
proof (induction es)
  case Nil
  then show ?case by (simp add: severity_count_def)
next
  case (Cons e es)
  then show ?case by (cases "severity_or_medium e") (simp_all add: severity_count_def)
qed

lemma severity_count_append:
  "severity_count v (xs @ ys) = severity_count v xs + severity_count v ys"
  by (simp add: severity_count_def)

lemma countError_fields:
  "total (countError s e) = total s"
  "valid (countError s e) = valid s"
  "invalid (countError s e) = invalid s"
  "totalErrors (countError s e) = totalErrors s"
  "totalWarnings (countError s e) = totalWarnings s"
  "warningTypes (countError s e) = warningTypes s"
  "severityBreakdown (countError s e) = bumpSeverity (severity_or_medium e) (severityBreakdown s)"
  by (simp_all add: countError_def)

lemma countWarning_fields:
  "total (countWarning s w) = total s"
  "valid (countWarning s w) = valid s"
  "invalid (countWarning s w) = invalid s"
  "totalErrors (countWarning s w) = totalErrors s"
  "totalWarnings (countWarning s w) = totalWarnings s"
  "errorTypes (countWarning s w) = errorTypes s"
  "severityBreakdown (countWarning s w) = severityBreakdown s"
  by (simp_all add: countWarning_def)

lemma foldl_countError:
  "total (foldl countError s es) = total s"
  "valid (foldl countError s es) = valid s"
  "invalid (foldl countError s es) = invalid s"
  "totalErrors (foldl countError s es) = totalErrors s"
  "totalWarnings (foldl countError s es) = totalWarnings s"
  "warningTypes (foldl countError s es) = warningTypes s"
  by (induction es arbitrary: s) (simp_all add: countError_fields)

lemma foldl_countError_severity:
  "severityBreakdown (foldl countError s es) =
     \<lparr>critical = critical (severityBreakdown s) + severity_count Critical es,
      high = high (severityBreakdown s) + severity_count High es,
      medium = medium (severityBreakdown s) + severity_count Medium es,
      low = low (severityBreakdown s) + severity_count Low es\<rparr>"
proof (induction es arbitrary: s)
  case Nil
  then show ?case by (simp add: severity_count_def)
next
  case (Cons e es)
  show ?case
    by (cases "severity_or_medium e") (simp_all add: Cons.IH countError_fields severity_count_def)
qed

lemma foldl_countWarning:
  "total (foldl countWarning s ws) = total s"
  "valid (foldl countWarning s ws) = valid s"
  "invalid (foldl countWarning s ws) = invalid s"
  "totalErrors (foldl countWarning s ws) = totalErrors s"
  "totalWarnings (foldl countWarning s ws) = totalWarnings s"
  "errorTypes (foldl countWarning s ws) = errorTypes s"
  "severityBreakdown (foldl countWarning s ws) = severityBreakdown s"
  by (induction ws arbitrary: s) (simp_all add: countWarning_fields)

lemma countResult_fields:
  "total (countResult s r) = total s"
  "valid (countResult s r) = valid s + (if isValid r then 1 else 0)"
  "invalid (countResult s r) = invalid s + (if isValid r then 0 else 1)"
  "totalErrors (countResult s r) = totalErrors s + length (errors r)"
  "totalWarnings (countResult s r) = totalWarnings s + length (warnings r)"
  "severityBreakdown (countResult s r) =
     \<lparr>critical = critical (severityBreakdown s) + severity_count Critical (errors r),
      high = high (severityBreakdown s) + severity_count High (errors r),
      medium = medium (severityBreakdown s) + severity_count Medium (errors r),
      low = low (severityBreakdown s) + severity_count Low (errors r)\<rparr>"
  by (simp_all add: countResult_def Let_def foldl_countWarning foldl_countError
        foldl_countError_severity)

lemma foldl_countResult:
  "total (foldl countResult s rs) = total s"
  "valid (foldl countResult s rs) = valid s + length (filter isValid rs)"
  "invalid (foldl countResult s rs) = invalid s + length (filter (\<lambda>r. \<not> isValid r) rs)"
  "totalErrors (foldl countResult s rs) = totalErrors s + length (all_errors rs)"
  "totalWarnings (foldl countResult s rs) = totalWarnings s + length (concat (map warnings rs))"
  "severityBreakdown (foldl countResult s rs) =
     \<lparr>critical = critical (severityBreakdown s) + severity_count Critical (all_errors rs),
      high = high (severityBreakdown s) + severity_count High (all_errors rs),
      medium = medium (severityBreakdown s) + severity_count Medium (all_errors rs),
      low = low (severityBreakdown s) + severity_count Low (all_errors rs)\<rparr>"
  by (induction rs arbitrary: s)
     (simp_all add: countResult_fields all_errors_def severity_count_append severity_count_def)

lemma summary_fields:
  "total (generateValidationSummary rs) = length rs"
  "valid (generateValidationSummary rs) = length (filter isValid rs)"
  "invalid (generateValidationSummary rs) = length (filter (\<lambda>r. \<not> isValid r) rs)"
  "totalErrors (generateValidationSummary rs) = length (all_errors rs)"
  "totalWarnings (generateValidationSummary rs) = length (concat (map warnings rs))"
  "severityBreakdown (generateValidationSummary rs) =
     \<lparr>critical = severity_count Critical (all_errors rs),
      high = severity_count High (all_errors rs),
      medium = severity_count Medium (all_errors rs),
      low = severity_count Low (all_errors rs)\<rparr>"
  "validPercentage (generateValidationSummary rs) =
     (if rs = [] then 0
      else mathRound (jsMul (jsDiv (num (length (filter isValid rs))) (num (length rs))) (num 100)))"
  by (simp_all add: generateValidationSummary_def Let_def foldl_countResult initialSummary_def)


lemma percentage_1_of_2: "mathRound (jsMul (jsDiv (num 1) (num 2)) (num 100)) = 50"
  by (simp add: double_defs bitlen_numeral_simps Let_def)

text \<open>The error of the double computation: each of the two roundings is off by at most
  the fraction \<open>2 ^ -53\<close> of its exact result, so the rounded percentage is the exact
  one or a neighbour.\<close>

lemma bitlen_bounds: "0 < n \<Longrightarrow> 2 ^ (bitlen n - 1) \<le> n \<and> n < 2 ^ bitlen n"
proof (induction n rule: bitlen.induct)
  case (1 n)
  show ?case
  proof (cases "n div 2 = 0")
    case True
    with 1(2) have "n = 1" by (simp add: div_eq_0_iff) 
    then show ?thesis by (simp add: bitlen.simps)
  next
    case False
    then have pos: "0 < n div 2" by simp
    from 1(1) [OF _ pos] 1(2) have ih: "2 ^ (bitlen (n div 2) - 1) \<le> n div 2" "n div 2 < 2 ^ bitlen (n div 2)"
      by simp_all
    have b: "bitlen n = Suc (bitlen (n div 2))" using 1(2) by (simp add: bitlen.simps)
    have bpos: "0 < bitlen (n div 2)" using pos by (simp add: bitlen.simps)
    then obtain c where c: "bitlen (n div 2) = Suc c" by (cases "bitlen (n div 2)") auto
    from ih c have "2 * 2 ^ c \<le> 2 * (n div 2)" by simp
    also have "\<dots> \<le> n" by simp
    finally have lo: "2 ^ (bitlen n - 1) \<le> n" by (simp add: b c)
    from ih(2) have "n div 2 + 1 \<le> 2 ^ bitlen (n div 2)" by simp
    then have "2 * (n div 2) + 2 \<le> 2 * 2 ^ bitlen (n div 2)" by simp
    moreover have "n < 2 * (n div 2) + 2" by presburger
    ultimately have hi: "n < 2 ^ bitlen n" by (simp add: b)
    from lo hi show ?thesis by simp
  qed
qed

lemma shift_val:
  assumes "0 < d" "shift (n, d) k = (n', d')"
  shows "0 < d'" "real n' / real d' = real n / real d * 2 powi k"
  using assms
  by (auto simp: shift_def power_int_def field_simps split: if_splits)

lemma rne_div_err:
  assumes "0 < d"
  shows "\<bar>real (rne_div n d) - real n / real d\<bar> \<le> 1 / 2"
proof -
  define q r where "q = n div d" and "r = n mod d"
  have n: "real n = real q * real d + real r"
    unfolding q_def r_def by (metis div_mult_mod_eq of_nat_add of_nat_mult)
  have r: "r < d" unfolding r_def using assms by simp
  have frac: "real n / real d = real q + real r / real d"
    using assms by (simp add: n field_simps)
  have rd: "0 \<le> real r / real d" "real r / real d < 1" using r assms by simp_all
  consider "2 * r < d" | "2 * r > d" | "2 * r = d" by linarith
  then show ?thesis
  proof cases
    case 1
    then have "rne_div n d = q" by (simp add: rne_div_def q_def r_def Let_def)
    moreover from 1 assms have "real r / real d \<le> 1 / 2" by (simp add: field_simps)
    ultimately show ?thesis using frac rd by simp
  next
    case 2
    then have "rne_div n d = q + 1" by (simp add: rne_div_def q_def r_def Let_def)
    moreover from 2 assms have "real r / real d \<ge> 1 / 2" by (simp add: field_simps)
    ultimately show ?thesis using frac rd by simp
  next
    case 3
    then have "rne_div n d = q \<or> rne_div n d = q + 1"
      by (simp add: rne_div_def q_def r_def Let_def)
    moreover from 3 assms have "real r / real d = 1 / 2" by (simp add: field_simps)
    ultimately show ?thesis using frac by auto
  qed
qed


lemma two_powi_split:
  "(2::real) powi (53 + int a - int b) = 2 ^ 53 * 2 ^ a / 2 ^ b"
  by (simp add: power_int_add power_int_diff)

lemma fl_scaled_lower:
  assumes n: "0 < n" and d: "0 < d"
  defines "k1 \<equiv> 53 + int (bitlen d) - int (bitlen n)"
  shows "2 ^ 52 < real n / real d * 2 powi k1"
proof -
  from bitlen_bounds [OF n] have lo: "(2::real) ^ (bitlen n - 1) \<le> real n"
    by (metis of_nat_le_iff of_nat_numeral of_nat_power)
  from bitlen_bounds [OF d] have hi: "real d < 2 ^ bitlen d"
    by (metis of_nat_less_iff of_nat_numeral of_nat_power)
  have bn: "0 < bitlen n" using n by (simp add: bitlen.simps)
  then have half: "(2::real) ^ bitlen n = 2 * 2 ^ (bitlen n - 1)"
    by (cases "bitlen n") simp_all
  have "real n / real d * 2 powi k1 = 2 ^ 53 * (real n * 2 ^ bitlen d) / (real d * 2 ^ bitlen n)"
    unfolding k1_def two_powi_split by simp
  moreover have "real d * 2 ^ bitlen n < 2 * (real n * 2 ^ bitlen d)"
  proof -
    have "real d * 2 ^ bitlen n = 2 * (real d * 2 ^ (bitlen n - 1))" by (simp add: half)
    also have "\<dots> \<le> 2 * (real d * real n)" using lo d by simp
    also have "\<dots> < 2 * (2 ^ bitlen d * real n)" using hi n by simp
    finally show ?thesis by (simp add: mult.commute)
  qed
  then have "1 / 2 < (real n * 2 ^ bitlen d) / (real d * 2 ^ bitlen n)"
    using d by (simp add: field_simps)
  ultimately show ?thesis by simp
qed

lemma fl_err:
  assumes d: "0 < d"
  shows "\<bar>dval (fl n d) - real n / real d\<bar> \<le> real n / real d / 2 ^ 53"
proof (cases "n = 0")
  case True
  then show ?thesis by (simp add: fl_def dval_def)
next
  case False
  then have n: "0 < n" by simp
  define x where "x = real n / real d"
  have xpos: "0 < x" using n d by (simp add: x_def)
  define k1 where "k1 = 53 + int (bitlen d) - int (bitlen n)"
  obtain n1 d1 where s1: "shift (n, d) k1 = (n1, d1)" by (cases "shift (n, d) k1")
  define k where "k = (if n1 < d1 * 2 ^ 53 then k1 else k1 - 1)"
  obtain n2 d2 where s2: "shift (n, d) k = (n2, d2)" by (cases "shift (n, d) k")
  have fl: "fl n d = (rne_div n2 d2, - k)"
  proof (cases "n1 < d1 * 2 ^ 53")
    case True
    then have "k = k1" by (simp add: k_def)
    with s2 s1 have "n2 = n1" "d2 = d1" by simp_all
    with True n s1 \<open>k = k1\<close> show ?thesis
      unfolding fl_def k1_def by (simp add: Let_def)
  next
    case False
    then have "k = k1 - 1" by (simp add: k_def)
    with False n s1 s2 show ?thesis
      unfolding fl_def k1_def by (simp add: Let_def)
  qed
  from shift_val [OF d s1] have d1: "0 < d1" and v1: "real n1 / real d1 = x * 2 powi k1"
    by (simp_all add: x_def)
  from shift_val [OF d s2] have d2: "0 < d2" and v2: "real n2 / real d2 = x * 2 powi k"
    by (simp_all add: x_def)
  have lower: "2 ^ 52 \<le> x * 2 powi k"
  proof (cases "n1 < d1 * 2 ^ 53")
    case True
    then have "k = k1" by (simp add: k_def)
    with fl_scaled_lower [OF n d] show ?thesis by (simp add: x_def k1_def)
  next
    case False
    then have kk: "k = k1 - 1" by (simp add: k_def)
    from False have "real d1 * 2 ^ 53 \<le> real n1"
      by (metis not_less of_nat_le_iff of_nat_mult of_nat_numeral of_nat_power)
    then have "2 ^ 53 \<le> real n1 / real d1" using d1 by (simp add: field_simps)
    then have "2 ^ 53 \<le> x * 2 powi k1" by (simp add: v1)
    moreover have "(2::real) powi k1 = 2 * 2 powi (k1 - 1)"
      by (simp add: power_int_diff)
    ultimately show ?thesis by (simp add: kk)
  qed
  have pk: "(2::real) powi k * 2 powi (- k) = 1"
    by (simp add: power_int_minus)
  have pos: "0 < (2::real) powi (- k)" by simp
  have small: "(2::real) powi (- k) \<le> x / 2 ^ 52"
  proof -
    from lower have "2 ^ 52 * 2 powi (- k) \<le> x * 2 powi k * 2 powi (- k)"
      using pos by (simp only: mult_le_cancel_right_pos)
    then have "2 ^ 52 * 2 powi (- k) \<le> x" by (simp add: mult.assoc pk)
    then show ?thesis by (simp add: field_simps)
  qed
  from rne_div_err [OF d2, of n2] have "\<bar>real (rne_div n2 d2) - x * 2 powi k\<bar> \<le> 1 / 2"
    by (simp add: v2)
  then have "\<bar>real (rne_div n2 d2) - x * 2 powi k\<bar> * 2 powi (- k) \<le> 1 / 2 * 2 powi (- k)"
    using pos by (simp only: mult_le_cancel_right_pos)
  moreover have "\<bar>real (rne_div n2 d2) - x * 2 powi k\<bar> * 2 powi (- k)
        = \<bar>real (rne_div n2 d2) * 2 powi (- k) - x\<bar>"
  proof -
    have "\<bar>real (rne_div n2 d2) - x * 2 powi k\<bar> * 2 powi (- k)
        = \<bar>(real (rne_div n2 d2) - x * 2 powi k) * 2 powi (- k)\<bar>"
      using pos by (simp add: abs_mult)
    also have "(real (rne_div n2 d2) - x * 2 powi k) * 2 powi (- k)
        = real (rne_div n2 d2) * 2 powi (- k) - x * (2 powi k * 2 powi (- k))"
      by (simp add: algebra_simps)
    finally show ?thesis by (simp add: pk)
  qed
  ultimately have "\<bar>real (rne_div n2 d2) * 2 powi (- k) - x\<bar> \<le> 1 / 2 * 2 powi (- k)"
    by simp
  also have "\<dots> \<le> 1 / 2 * (x / 2 ^ 52)" using small by simp
  also have "\<dots> = x / 2 ^ 53" by simp
  finally show ?thesis by (simp add: fl dval_def x_def)
qed


lemma toFrac_val:
  assumes "toFrac x = (n, d)"
  shows "0 < d" "real n / real d = dval x"
  using assms
  by (auto simp: toFrac_def dval_def power_int_def field_simps split: prod.splits if_splits)

lemma mathRound_floor: "mathRound x = \<lfloor>dval x + 1 / 2\<rfloor>"
proof -
  obtain n d where f: "toFrac x = (n, d)" by (cases "toFrac x")
  from toFrac_val [OF f] have d: "0 < d" and v: "real n / real d = dval x" by simp_all
  have "dval x + 1 / 2 = real (2 * n + d) / real (2 * d)"
    using d by (simp add: v [symmetric] field_simps)
  then have "\<lfloor>dval x + 1 / 2\<rfloor> = int ((2 * n + d) div (2 * d))"
    by (simp only: floor_divide_of_nat_eq)
  then show ?thesis by (simp add: mathRound_def f)
qed

lemma exact_percentage_floor:
  "0 < t \<Longrightarrow> exact_percentage v t = \<lfloor>100 * real v / real t + 1 / 2\<rfloor>"
proof -
  assume t: "0 < t"
  have "100 * real v / real t + 1 / 2 = real (2 * (100 * v) + t) / real (2 * t)"
    using t by (simp add: field_simps)
  then have "\<lfloor>100 * real v / real t + 1 / 2\<rfloor> = int ((2 * (100 * v) + t) div (2 * t))"
    by (simp only: floor_divide_of_nat_eq)
  then show ?thesis by (simp add: exact_percentage_def)
qed

lemma toFrac_num: "toFrac (num c) = (c, 1)"
  by (simp add: toFrac_def num_def)

lemma jsDiv_num: "jsDiv (num v) (num t) = fl v t"
  by (simp add: jsDiv_def toFrac_num)

lemma jsMul_num_err:
  "\<bar>dval (jsMul a (num c)) - dval a * real c\<bar> \<le> dval a * real c / 2 ^ 53"
proof -
  obtain n d where f: "toFrac a = (n, d)" by (cases "toFrac a")
  from toFrac_val [OF f] have d: "0 < d" and v: "real n / real d = dval a" by simp_all
  have "jsMul a (num c) = fl (n * c) d"
    by (simp add: jsMul_def f toFrac_num)
  moreover have "real (n * c) / real d = dval a * real c"
    by (simp add: v [symmetric])
  ultimately show ?thesis using fl_err [OF d, of "n * c"] by simp
qed

lemma percentage_close:
  assumes t: "0 < t" and v: "v \<le> t"
  shows "\<bar>dval (jsMul (jsDiv (num v) (num t)) (num 100)) - 100 * real v / real t\<bar> < 1 / 4"
proof -
  define q where "q = real v / real t"
  have q: "0 \<le> q" "q \<le> 1" using t v by (simp_all add: q_def)
  define x1 where "x1 = dval (jsDiv (num v) (num t))"
  define x2 where "x2 = dval (jsMul (jsDiv (num v) (num t)) (num 100))"
  have e1: "\<bar>x1 - q\<bar> \<le> q / 2 ^ 53"
    using fl_err [OF t, of v] by (simp add: x1_def jsDiv_num q_def)
  have e2: "\<bar>x2 - x1 * 100\<bar> \<le> x1 * 100 / 2 ^ 53"
    using jsMul_num_err [of "jsDiv (num v) (num t)" 100] by (simp add: x1_def x2_def)
  have "q / 2 ^ 53 \<le> 1 / 2 ^ 53" using q by (simp add: field_simps)
  with e1 have d1: "\<bar>x1 - q\<bar> \<le> 1 / 2 ^ 53" by linarith
  have small: "(1::real) / 2 ^ 53 \<le> 1" by simp
  from d1 small have "\<bar>x1 - q\<bar> \<le> 1" by linarith
  then have x1: "0 \<le> x1 + 1" "x1 \<le> 2" using q by linarith+
  have "x1 * 100 / 2 ^ 53 \<le> 200 / 2 ^ 53" using x1 by (simp add: field_simps)
  with e2 have d2: "\<bar>x2 - x1 * 100\<bar> \<le> 200 / 2 ^ 53" by linarith
  have "x2 - 100 * q = (x2 - x1 * 100) + 100 * (x1 - q)" by simp
  then have "\<bar>x2 - 100 * q\<bar> \<le> \<bar>x2 - x1 * 100\<bar> + \<bar>100 * (x1 - q)\<bar>"
    by (simp only: abs_triangle_ineq)
  also have "\<bar>100 * (x1 - q)\<bar> = 100 * \<bar>x1 - q\<bar>" by (simp only: abs_mult abs_numeral)
  finally have "\<bar>x2 - 100 * q\<bar> \<le> \<bar>x2 - x1 * 100\<bar> + 100 * \<bar>x1 - q\<bar>" .
  also have "\<dots> \<le> 200 / 2 ^ 53 + 100 * (1 / 2 ^ 53)"
    by (intro add_mono mult_left_mono d1 d2) simp
  also have "\<dots> < 1 / 4" by simp
  finally show ?thesis by (simp add: x2_def q_def)
qed

lemma percentage_within_one:
  assumes t: "0 < t" and v: "v \<le> t"
  shows "\<bar>mathRound (jsMul (jsDiv (num v) (num t)) (num 100)) - exact_percentage v t\<bar> \<le> 1"
    and "0 \<le> mathRound (jsMul (jsDiv (num v) (num t)) (num 100))"
    and "mathRound (jsMul (jsDiv (num v) (num t)) (num 100)) \<le> 100"
proof -
  define x where "x = dval (jsMul (jsDiv (num v) (num t)) (num 100))"
  define y where "y = 100 * real v / real t"
  from percentage_close [OF t v] have c: "\<bar>x - y\<bar> < 1 / 4" by (simp add: x_def y_def)
  have y: "0 \<le> y" "y \<le> 100" using t v by (simp_all add: y_def field_simps)
  have m: "mathRound (jsMul (jsDiv (num v) (num t)) (num 100)) = \<lfloor>x + 1 / 2\<rfloor>"
    by (simp add: mathRound_floor x_def)
  have e: "exact_percentage v t = \<lfloor>y + 1 / 2\<rfloor>"
    by (simp add: exact_percentage_floor [OF t] y_def)
  show "\<bar>mathRound (jsMul (jsDiv (num v) (num t)) (num 100)) - exact_percentage v t\<bar> \<le> 1"
    unfolding m e using c by linarith
  show "0 \<le> mathRound (jsMul (jsDiv (num v) (num t)) (num 100))"
    by (simp add: mathRound_def split: prod.splits)
  show "mathRound (jsMul (jsDiv (num v) (num t)) (num 100)) \<le> 100"
    unfolding m using c y by linarith
qed

text \<open>
  C10, as stated, fails on the percentage: for 23 valid results out of 40 the code
  computes \<^verbatim>\<open>Math.round((23 / 40) * 100)\<close>; the double nearest to 23/40 times 100 rounds
  to a double just below 57.5, so the summary holds 57, while \<open>round (100 * 23 / 40)\<close>
  is 58.
\<close>

theorem validPercentage_rounding_counterexample:
  "validPercentage (generateValidationSummary
      (replicate 23 (processW3CResult None ''https://a.test/'') @
       replicate 17 (failedResult ''https://a.test/'' ''timeout''))) = 57
   \<and> valid (generateValidationSummary
      (replicate 23 (processW3CResult None ''https://a.test/'') @
       replicate 17 (failedResult ''https://a.test/'' ''timeout''))) = 23
   \<and> total (generateValidationSummary
      (replicate 23 (processW3CResult None ''https://a.test/'') @
       replicate 17 (failedResult ''https://a.test/'' ''timeout''))) = 40
   \<and> exact_percentage 23 40 = 58"
proof -
  have v: "isValid (processW3CResult None ''https://a.test/'')"
    and f: "\<not> isValid (failedResult ''https://a.test/'' ''timeout'')"
    by (simp_all add: processW3CResult_def failedResult_def)
  show ?thesis
    by (simp add: summary_fields v f percentage_23_of_40 exact_percentage_def)
qed

text \<open>
  C10, amended: for every result list, \<open>valid + invalid = total =\<close> the length of the
  list; \<open>validPercentage\<close> is 0 for the empty list and otherwise \<^verbatim>\<open>Math.round\<close> of the
  double-precision product \<^verbatim>\<open>(valid / total) * 100\<close>, an integer from 0 to 100 that is
  \<open>round (100 * valid / total)\<close> or differs from it by 1; \<open>severityBreakdown\<close> counts, per
  severity, the error entries of that severity (a missing severity counting as medium),
  so its four counters sum to \<open>totalErrors\<close>; the warning entries do not enter the tally:
  replacing the warnings of every result leaves it unchanged.
\<close>

theorem generateValidationSummary_tallies:
  "total (generateValidationSummary rs) = length rs
   \<and> valid (generateValidationSummary rs) = length (filter isValid rs)
   \<and> invalid (generateValidationSummary rs) = length (filter (\<lambda>r. \<not> isValid r) rs)
   \<and> valid (generateValidationSummary rs) + invalid (generateValidationSummary rs)
        = total (generateValidationSummary rs)
   \<and> validPercentage (generateValidationSummary rs) =
        (if rs = [] then 0
         else mathRound (jsMul (jsDiv (num (valid (generateValidationSummary rs)))
                                      (num (total (generateValidationSummary rs)))) (num 100)))
   \<and> totalErrors (generateValidationSummary rs) = length (all_errors rs)
   \<and> severityBreakdown (generateValidationSummary rs) =
        \<lparr>critical = severity_count Critical (all_errors rs),
         high = severity_count High (all_errors rs),
         medium = severity_count Medium (all_errors rs),
         low = severity_count Low (all_errors rs)\<rparr>
   \<and> critical (severityBreakdown (generateValidationSummary rs))
       + high (severityBreakdown (generateValidationSummary rs))
       + medium (severityBreakdown (generateValidationSummary rs))
       + low (severityBreakdown (generateValidationSummary rs))
        = totalErrors (generateValidationSummary rs)
   \<and> severityBreakdown (generateValidationSummary (map (\<lambda>r. r\<lparr>warnings := ws r\<rparr>) rs))
        = severityBreakdown (generateValidationSummary rs)
   \<and> 0 \<le> validPercentage (generateValidationSummary rs)
   \<and> validPercentage (generateValidationSummary rs) \<le> 100
   \<and> (rs \<noteq> [] \<longrightarrow>
        \<bar>validPercentage (generateValidationSummary rs)
           - exact_percentage (valid (generateValidationSummary rs))
               (total (generateValidationSummary rs))\<bar> \<le> 1)"
proof -
  have split: "length (filter isValid rs) + length (filter (\<lambda>r. \<not> isValid r) rs) = length rs"
    using sum_length_filter_compl [of isValid rs] by (simp add: comp_def)
  have same: "all_errors (map (\<lambda>r. r\<lparr>warnings := ws r\<rparr>) rs) = all_errors rs"
    by (simp add: all_errors_def comp_def)
  have le: "length (filter isValid rs) \<le> length rs" by simp
  have range: "0 \<le> validPercentage (generateValidationSummary rs)
      \<and> validPercentage (generateValidationSummary rs) \<le> 100
      \<and> (rs \<noteq> [] \<longrightarrow>
        \<bar>validPercentage (generateValidationSummary rs)
           - exact_percentage (valid (generateValidationSummary rs))
               (total (generateValidationSummary rs))\<bar> \<le> 1)"
  proof (cases "rs = []")
    case True
    then show ?thesis by (simp add: summary_fields)
  next
    case False
    then have pos: "0 < length rs" by simp
    from percentage_within_one [OF pos le] False show ?thesis
      by (simp add: summary_fields)
  qed
  have rest: "total (generateValidationSummary rs) = length rs
   \<and> valid (generateValidationSummary rs) = length (filter isValid rs)
   \<and> invalid (generateValidationSummary rs) = length (filter (\<lambda>r. \<not> isValid r) rs)
   \<and> valid (generateValidationSummary rs) + invalid (generateValidationSummary rs)
        = total (generateValidationSummary rs)
   \<and> validPercentage (generateValidationSummary rs) =
        (if rs = [] then 0
         else mathRound (jsMul (jsDiv (num (valid (generateValidationSummary rs)))
                                      (num (total (generateValidationSummary rs)))) (num 100)))
   \<and> totalErrors (generateValidationSummary rs) = length (all_errors rs)
   \<and> severityBreakdown (generateValidationSummary rs) =
        \<lparr>critical = severity_count Critical (all_errors rs),
         high = severity_count High (all_errors rs),
         medium = severity_count Medium (all_errors rs),
         low = severity_count Low (all_errors rs)\<rparr>
   \<and> critical (severityBreakdown (generateValidationSummary rs))
       + high (severityBreakdown (generateValidationSummary rs))
       + medium (severityBreakdown (generateValidationSummary rs))
       + low (severityBreakdown (generateValidationSummary rs))
        = totalErrors (generateValidationSummary rs)
   \<and> severityBreakdown (generateValidationSummary (map (\<lambda>r. r\<lparr>warnings := ws r\<rparr>) rs))
        = severityBreakdown (generateValidationSummary rs)"
    by (simp add: summary_fields split same severity_count_total)
  from rest range show ?thesis by blast
qed

theorem generateValidationSummary_tallies_witness:
  "validPercentage (generateValidationSummary
      [processW3CResult None ''https://a.test/'', failedResult ''https://b.test/'' ''timeout'']) = 50
   \<and> severityBreakdown (generateValidationSummary
      [processW3CResult None ''https://a.test/'', failedResult ''https://b.test/'' ''timeout''])
       = \<lparr>critical = 1, high = 0, medium = 0, low = 0\<rparr>"
proof -
  have half: "mathRound (jsMul (jsDiv (num (Suc 0)) (num (Suc (Suc 0)))) (num 100)) = 50"
    using percentage_1_of_2 by (simp add: numeral_2_eq_2)
  from generateValidationSummary_tallies [of "[processW3CResult None ''https://a.test/'',
                  failedResult ''https://b.test/'' ''timeout'']"]
  show ?thesis
    by (simp add: processW3CResult_def failedResult_def all_errors_def severity_count_def
          severity_or_medium_def half)
qed

section \<open>Properties of the sitemap resolver\<close>

lemma remdups_drop_earlier: "x \<in> set zs \<Longrightarrow> remdups (ys @ x # zs) = remdups (ys @ zs)"
  by (induction ys) auto

lemma newSet_first_occurrences:
  "distinct seen \<Longrightarrow> newSet seen xs = rev (remdups (rev (seen @ xs)))"
proof (induction xs arbitrary: seen)
  case Nil
  then show ?case by (simp add: distinct_remdups_id)
next
  case (Cons x xs)
  show ?case
  proof (cases "x \<in> set seen")
    case True
    then have "remdups (rev xs @ x # rev seen) = remdups (rev xs @ rev seen)"
      by (simp add: remdups_drop_earlier)
    with True Cons show ?thesis by simp
  next
    case False
    with Cons.prems have "distinct (seen @ [x])" by simp
    from Cons.IH [OF this] False show ?thesis by simp
  qed
qed

lemma last_dropWhile: "dropWhile P xs \<noteq> [] \<Longrightarrow> last (dropWhile P xs) = last xs"
  by (induction xs) (auto split: if_splits)

lemma trim_ends:
  assumes "trim s \<noteq> []"
  shows "\<not> isSpace (hd (trim s)) \<and> \<not> isSpace (last (trim s))"
proof -
  let ?zs = "dropWhile isSpace s"
  let ?ys = "dropWhile isSpace (rev ?zs)"
  from assms have ys: "?ys \<noteq> []" by (simp add: trim_def)
  have zs: "?zs \<noteq> []"
  proof
    assume empty: "?zs = []"
    have "?ys = []" unfolding empty by simp
    with ys show False ..
  qed
  have "hd (trim s) = last ?ys" using ys by (simp add: trim_def hd_rev)
  also have "\<dots> = last (rev ?zs)" using ys by (rule last_dropWhile)
  also have "\<dots> = hd ?zs" using zs by (simp add: last_rev)
  finally have "\<not> isSpace (hd (trim s))" using zs hd_dropWhile [of isSpace s] by simp
  moreover have "last (trim s) = hd ?ys" using ys by (simp add: trim_def last_rev)
  then have "\<not> isSpace (last (trim s))" using ys hd_dropWhile [of isSpace "rev ?zs"] by simp
  ultimately show ?thesis by simp
qed

lemma sitemap_locs_trimmed:
  "u \<in> set (sitemap_locs parsedXml) \<Longrightarrow> u \<noteq> [] \<and> \<not> isSpace (hd u) \<and> \<not> isSpace (last u)"
  by (auto simp: sitemap_locs_def entry_locs_def trim_ends
           split: option.splits list.splits xml_node.splits if_splits)

lemma pushLocs_text:
  "\<not> list_ex loc_is_element es \<Longrightarrow>
     pushLocs P es urls = Inr (urls @ filter (isValidHttpUrl P) (entry_locs es))"
  by (induction es arbitrary: urls)
     (auto simp: entry_locs_def loc_is_element_def
           split: option.splits list.splits xml_node.splits)

lemma pushLocs_element:
  "list_ex loc_is_element es \<Longrightarrow>
     pushLocs P es urls = Inl (TypeError ''urlEntry.loc[0].trim is not a function'')"
  by (induction es arbitrary: urls)
     (auto simp: loc_is_element_def split: option.splits list.splits xml_node.splits)

lemma validation_accepts_iff:
  "(case validation_validateUrl P u of Inl e \<Rightarrow> False | Inr h \<Rightarrow> True) = isValidHttpUrl P u"
  by (auto simp: validation_validateUrl_def isValidHttpUrl_def split: option.splits)

lemma extract_first_occurrences:
  assumes "\<not> has_element_loc parsedXml"
  shows "extractUrlsFromParsedXml P parsedXml =
     Inr (rev (remdups (rev (filter (isValidHttpUrl P) (sitemap_locs parsedXml)))))"
proof -
  let ?valid = "filter (isValidHttpUrl P) (sitemap_locs parsedXml)"
  let ?es1 = "case urlset_url parsedXml of None \<Rightarrow> [] | Some es \<Rightarrow> toArray es"
  let ?es2 = "case sitemapindex_sitemap parsedXml of None \<Rightarrow> [] | Some es \<Rightarrow> toArray es"
  from assms have e1: "\<not> list_ex loc_is_element ?es1" and e2: "\<not> list_ex loc_is_element ?es2"
    by (simp_all add: has_element_loc_def sitemap_entries_def list_ex_iff)
  have p1: "(case urlset_url parsedXml of None \<Rightarrow> Inr [] | Some es \<Rightarrow> pushLocs P (toArray es) [])
              = Inr (filter (isValidHttpUrl P) (entry_locs ?es1))"
    using e1 by (cases "urlset_url parsedXml") (simp_all add: pushLocs_text entry_locs_def)
  have p2: "(case sitemapindex_sitemap parsedXml of
               None \<Rightarrow> Inr urls1 | Some es \<Rightarrow> pushLocs P (toArray es) urls1)
              = Inr (urls1 @ filter (isValidHttpUrl P) (entry_locs ?es2))" for urls1
    using e2 by (cases "sitemapindex_sitemap parsedXml") (simp_all add: pushLocs_text entry_locs_def)
  have locs: "filter (isValidHttpUrl P) (entry_locs ?es1) @ filter (isValidHttpUrl P) (entry_locs ?es2)
                = ?valid"
    by (simp add: sitemap_locs_def sitemap_entries_def entry_locs_def)
  have uniq: "newSet [] ?valid = rev (remdups (rev ?valid))"
    using newSet_first_occurrences [of "[]" ?valid] by simp
  have "set (rev (remdups (rev ?valid))) \<subseteq> {u. isValidHttpUrl P u}" by auto
  then have keep: "filter (isValidHttpUrl P) (rev (remdups (rev ?valid))) = rev (remdups (rev ?valid))"
    by (intro filter_True) blast
  have "extractUrls_try P parsedXml = Inr (rev (remdups (rev ?valid)))"
    unfolding extractUrls_try_def p1 p2 sum.case locs Let_def uniq validation_accepts_iff keep ..
  then show ?thesis by (simp add: extractUrlsFromParsedXml_def)
qed

lemma extract_element_fails:
  assumes "has_element_loc parsedXml"
  shows "extractUrlsFromParsedXml P parsedXml = Inl (Error ''Failed to extract URLs from sitemap'')"
proof -
  let ?es1 = "case urlset_url parsedXml of None \<Rightarrow> [] | Some es \<Rightarrow> toArray es"
  let ?es2 = "case sitemapindex_sitemap parsedXml of None \<Rightarrow> [] | Some es \<Rightarrow> toArray es"
  from assms consider
      (first) "list_ex loc_is_element ?es1"
    | (second) "\<not> list_ex loc_is_element ?es1" and "list_ex loc_is_element ?es2"
    by (auto simp: has_element_loc_def sitemap_entries_def list_ex_iff)
  then show ?thesis
  proof cases
    case first
    then show ?thesis
      by (cases "urlset_url parsedXml")
         (simp_all add: extractUrlsFromParsedXml_def extractUrls_try_def pushLocs_element)
  next
    case second
    then show ?thesis
      by (cases "urlset_url parsedXml"; cases "sitemapindex_sitemap parsedXml")
         (simp_all add: extractUrlsFromParsedXml_def extractUrls_try_def pushLocs_element
            pushLocs_text)
  qed
qed

text \<open>
  C9, as stated, fails: an entry whose \<^verbatim>\<open>loc\<close> carries an attribute is not skipped. Its
  \<^verbatim>\<open>loc[0]\<close> is an object, \<^verbatim>\<open>loc[0].trim()\<close> throws, the \<^verbatim>\<open>catch\<close> block of
  \<^verbatim>\<open>extractUrlsFromParsedXml\<close> turns that into 'Failed to extract URLs from sitemap', and
  the sitemap is rejected although its other entry is a valid address.
\<close>

theorem extractUrls_element_loc_counterexample:
  "extractUrlsFromParsedXml attribute_platform attribute_pages
     = Inl (Error ''Failed to extract URLs from sitemap'')
   \<and> parseSitemap attribute_platform ''<urlset/>''
     = Inl (Error ''Failed to extract URLs from sitemap'')
   \<and> validateAndParseSitemap attribute_platform ''https://site.test/sitemap.xml''
     = \<lparr>sv_isValid = False, sv_error = Some ''Failed to extract URLs from sitemap'',
        sv_urlCount = 0, sv_urls = []\<rparr>"
  by (simp add: attribute_platform_def attribute_pages_def sample_platform_def
        sample_parseURL_def validateAndParseSitemap_def fetchSitemap_def parseSitemap_def
        extractUrlsFromParsedXml_def extractUrls_try_def validation_validateUrl_def
        isValidHttpUrl_def trim_def isSpace_def response_ok_def Let_def)

text \<open>
  C9, amended: for every parsed sitemap in which the first \<^verbatim>\<open>loc\<close> child of every entry is
  a text (or is missing), the resolver returns each address once: the result has no
  duplicates, it holds exactly the trimmed \<^verbatim>\<open>loc\<close> texts that are valid absolute HTTP or
  HTTPS addresses, in the order of their first occurrence, none of them starting or
  ending with white space; an entry that is not such an address is left out and produces
  no error. When the first \<^verbatim>\<open>loc\<close> child of some entry is
  an element with an attribute or a child of its own, the resolver fails with 'Failed to
  extract URLs from sitemap'. \<^verbatim>\<open>parseSitemap\<close> passes that failure on, fails when no address
  is left, fails when there are more than \<^verbatim>\<open>maxSitemapUrls\<close>, and returns the list
  otherwise.
\<close>

theorem extractUrls_unique_and_parseSitemap_limits:
  "(\<not> has_element_loc parsedXml \<longrightarrow>
      extractUrlsFromParsedXml P parsedXml
        = Inr (rev (remdups (rev (filter (isValidHttpUrl P) (sitemap_locs parsedXml))))))
   \<and> (has_element_loc parsedXml \<longrightarrow>
      extractUrlsFromParsedXml P parsedXml = Inl (Error ''Failed to extract URLs from sitemap''))
   \<and> (\<forall>urls. extractUrlsFromParsedXml P parsedXml = Inr urls \<longrightarrow>
        distinct urls
      \<and> set urls = {u \<in> set (sitemap_locs parsedXml). isValidHttpUrl P u}
      \<and> (\<forall>u\<in>set urls. u \<noteq> [] \<and> \<not> isSpace (hd u) \<and> \<not> isSpace (last u))
      \<and> \<not> has_element_loc parsedXml)
   \<and> (parseString P xmlContent = Inr parsedXml \<longrightarrow>
        parseSitemap P xmlContent =
          (case extractUrlsFromParsedXml P parsedXml of
             Inl e \<Rightarrow> Inl (Error ''Failed to extract URLs from sitemap'')
           | Inr urls \<Rightarrow>
               if urls = [] then Inl (Error ''No URLs found in sitemap'')
               else if length urls > maxSitemapUrls P
               then Inl (Error (''Sitemap contains '' @ showNat (length urls) @
                                '' URLs, maximum allowed is '' @ showNat (maxSitemapUrls P)))
               else Inr urls))"
proof -
  have text_only: "\<not> has_element_loc parsedXml \<longrightarrow>
      extractUrlsFromParsedXml P parsedXml
        = Inr (rev (remdups (rev (filter (isValidHttpUrl P) (sitemap_locs parsedXml)))))"
    by (simp add: extract_first_occurrences)
  have element: "has_element_loc parsedXml \<longrightarrow>
      extractUrlsFromParsedXml P parsedXml = Inl (Error ''Failed to extract URLs from sitemap'')"
    by (simp add: extract_element_fails)
  have unique: "\<forall>urls. extractUrlsFromParsedXml P parsedXml = Inr urls \<longrightarrow>
        distinct urls
      \<and> set urls = {u \<in> set (sitemap_locs parsedXml). isValidHttpUrl P u}
      \<and> (\<forall>u\<in>set urls. u \<noteq> [] \<and> \<not> isSpace (hd u) \<and> \<not> isSpace (last u))
      \<and> \<not> has_element_loc parsedXml"
  proof (cases "has_element_loc parsedXml")
    case True
    then show ?thesis by (simp add: extract_element_fails)
  next
    case False
    then show ?thesis by (auto simp: extract_first_occurrences dest: sitemap_locs_trimmed)
  qed
  have limits: "parseString P xmlContent = Inr parsedXml \<longrightarrow>
        parseSitemap P xmlContent =
          (case extractUrlsFromParsedXml P parsedXml of
             Inl e \<Rightarrow> Inl (Error ''Failed to extract URLs from sitemap'')
           | Inr urls \<Rightarrow>
               if urls = [] then Inl (Error ''No URLs found in sitemap'')
               else if length urls > maxSitemapUrls P
               then Inl (Error (''Sitemap contains '' @ showNat (length urls) @
                                '' URLs, maximum allowed is '' @ showNat (maxSitemapUrls P)))
               else Inr urls)"
    by (cases "has_element_loc parsedXml")
       (simp_all add: parseSitemap_def extract_element_fails extract_first_occurrences)
  from text_only element unique limits show ?thesis by blast
qed

theorem extractUrls_unique_and_parseSitemap_limits_witness:
  "\<not> has_element_loc mixed_pages
   \<and> parseString mixed_platform ''<urlset/>'' = Inr mixed_pages
   \<and> extractUrlsFromParsedXml mixed_platform mixed_pages
       = Inr [''https://a.test/'', ''https://b.test/'']
   \<and> parseSitemap mixed_platform ''<urlset/>'' = Inr [''https://a.test/'', ''https://b.test/'']"
proof -
  have text_only: "\<not> has_element_loc mixed_pages"
    by (simp add: has_element_loc_def sitemap_entries_def loc_is_element_def mixed_pages_def)
  have parsed: "parseString mixed_platform ''<urlset/>'' = Inr mixed_pages"
    by (simp add: mixed_platform_def)
  have locs: "filter (isValidHttpUrl mixed_platform) (sitemap_locs mixed_pages)
                = [''https://a.test/'', ''https://a.test/'', ''https://b.test/'', ''https://a.test/'']"
    by (simp add: sitemap_locs_def sitemap_entries_def entry_locs_def mixed_pages_def
          mixed_platform_def sample_platform_def sample_parseURL_def isValidHttpUrl_def
          trim_def isSpace_def)
  have max: "maxSitemapUrls mixed_platform = 10000"
    by (simp add: mixed_platform_def sample_platform_def)
  note claim = extractUrls_unique_and_parseSitemap_limits
                 [of mixed_pages mixed_platform "''<urlset/>''"]
  from claim text_only
  have urls: "extractUrlsFromParsedXml mixed_platform mixed_pages
                   = Inr [''https://a.test/'', ''https://b.test/'']"
    unfolding locs by simp
  from claim parsed
  have "parseSitemap mixed_platform ''<urlset/>'' = Inr [''https://a.test/'', ''https://b.test/'']"
    unfolding urls max by simp
  with text_only parsed urls show ?thesis by simp
qed


section \<open>Properties of the worker and of cancelScan\<close>

lemma parseSitemap_Inr:
  "parseSitemap P x = Inr urls \<Longrightarrow> urls \<noteq> [] \<and> length urls \<le> maxSitemapUrls P"
  by (auto simp: parseSitemap_def Let_def split: sum.splits if_splits)

lemma sitemap_valid:
  "sv_isValid (validateAndParseSitemap P u) \<Longrightarrow>
     sv_urls (validateAndParseSitemap P u) \<noteq> []
   \<and> length (sv_urls (validateAndParseSitemap P u)) \<le> maxSitemapUrls P"
  by (auto simp: validateAndParseSitemap_def Let_def dest: parseSitemap_Inr split: sum.splits)

lemma worker_success:
  assumes row: "scan_tbl db (job_scanId job) = Some s"
    and valid: "sv_isValid (validateAndParseSitemap (platform_of env) (job_sitemapUrl job))"
    and urls: "sv_urls (validateAndParseSitemap (platform_of env) (job_sitemapUrl job)) = urls"
    and bal: "credit_tbl (credits db) (job_userId job) = Some b"
    and enough: "int (length urls) \<le> b"
    and ok: "createManyError env = None"
  shows "scanWorker env job db =
     (db\<lparr>credits := (credits db)\<lparr>credit_tbl := (credit_tbl (credits db))
                         (job_userId job \<mapsto> b - int (length urls)),
                       audit := audit (credits db) @
                         [CreditsDeducted (job_userId job) (int (length urls))
                            (''sitemap_scan_'' @ showNat (job_scanId job))]\<rparr>,
         scanResult_tbl := scanResult_tbl db @
                        map (toRow (job_scanId job)) (batch_results env urls),
         scan_tbl := (scan_tbl db)(job_scanId job \<mapsto>
                        s\<lparr>totalUrls := length urls, status := Success,
                          finishedAt := Some (clock env)\<rparr>)\<rparr>,
      Inr (generateValidationSummary (batch_results env urls)))"
proof -
  from sitemap_valid [OF valid] urls have ne: "urls \<noteq> []" by simp
  then have pos: "0 < length urls" by simp
  show ?thesis
    unfolding scanWorker_def scanWorker_try_def
    using row valid bal enough ok pos
    by (simp add: urls markProcessing_def scan_update_def checkSufficientCredits_def
          getCreditBalance_def deductCredits_unfold Let_def
          validateUrls_never_throws [OF never_throws_progressCallback] batch_results_def)
qed

lemma worker_fails_after_deduction:
  assumes row: "scan_tbl db (job_scanId job) = Some s"
    and valid: "sv_isValid (validateAndParseSitemap (platform_of env) (job_sitemapUrl job))"
    and urls: "sv_urls (validateAndParseSitemap (platform_of env) (job_sitemapUrl job)) = urls"
    and max: "maxSitemapUrls (platform_of env) \<le> 10000"
    and bal: "credit_tbl (credits db) (job_userId job) = Some b"
    and enough: "int (length urls) \<le> b"
    and fails: "createManyError env = Some m"
  shows "scanWorker env job db =
     (db\<lparr>credits := (credits db)\<lparr>credit_tbl := (credit_tbl (credits db))(job_userId job \<mapsto> b),
                       audit := audit (credits db) @
                         [CreditsDeducted (job_userId job) (int (length urls))
                            (''sitemap_scan_'' @ showNat (job_scanId job)),
                          CreditsAdded (job_userId job) (int (length urls))
                            (''refund: scan_failure_'' @ showNat (job_scanId job))]\<rparr>,
         scan_tbl := (scan_tbl db)(job_scanId job \<mapsto>
                        s\<lparr>totalUrls := length urls, status := Failed,
                          finishedAt := Some (clock env), errorMsg := Some m\<rparr>)\<rparr>,
      Inl (Error m))"
proof -
  from sitemap_valid [OF valid] urls max have ne: "urls \<noteq> []" and le: "length urls \<le> 10000"
    by simp_all
  then have pos: "0 < length urls" by simp
  show ?thesis
    unfolding scanWorker_def scanWorker_try_def
    using row valid bal enough fails pos le
    by (simp add: urls markProcessing_def scan_update_def checkSufficientCredits_def
          getCreditBalance_def deductCredits_unfold refundCredits_def addCredits_def Let_def
          scanWorker_catch_def refundIfDeducted_def
          validateUrls_never_throws [OF never_throws_progressCallback])
qed

lemma worker_insufficient:
  assumes row: "scan_tbl db (job_scanId job) = Some s"
    and valid: "sv_isValid (validateAndParseSitemap (platform_of env) (job_sitemapUrl job))"
    and urls: "sv_urls (validateAndParseSitemap (platform_of env) (job_sitemapUrl job)) = urls"
    and max: "maxSitemapUrls (platform_of env) \<le> 10000"
    and bal: "credit_tbl (credits db) (job_userId job) = Some b"
    and short: "b < int (length urls)"
  shows "scanWorker env job db =
     (db\<lparr>credits := (credits db)\<lparr>credit_tbl := (credit_tbl (credits db))
                         (job_userId job \<mapsto> b + int (length urls)),
                       audit := audit (credits db) @
                         [CreditsAdded (job_userId job) (int (length urls))
                            (''refund: scan_failure_'' @ showNat (job_scanId job))]\<rparr>,
         scan_tbl := (scan_tbl db)(job_scanId job \<mapsto>
                        s\<lparr>totalUrls := length urls, status := Failed,
                          finishedAt := Some (clock env),
                          errorMsg := Some (''Insufficient credits. Required: '' @
                             showNat (length urls) @ '', Available: '' @ showInt b)\<rparr>)\<rparr>,
      Inl (Error (''Insufficient credits. Required: '' @ showNat (length urls) @
                  '', Available: '' @ showInt b)))"
proof -
  from sitemap_valid [OF valid] urls max have ne: "urls \<noteq> []" and le: "length urls \<le> 10000"
    by simp_all
  then have pos: "0 < length urls" by simp
  show ?thesis
    unfolding scanWorker_def scanWorker_try_def
    using row valid bal short pos le
    by (simp add: urls markProcessing_def scan_update_def checkSufficientCredits_def
          getCreditBalance_def refundCredits_def addCredits_def Let_def
          scanWorker_catch_def refundIfDeducted_def)
qed


lemma worker_sitemap_failure:
  assumes row: "scan_tbl db (job_scanId job) = Some s"
    and invalid: "\<not> sv_isValid (validateAndParseSitemap (platform_of env) (job_sitemapUrl job))"
  shows "scanWorker env job db =
     (refundIfDeducted job
        (db\<lparr>scan_tbl := (scan_tbl db)(job_scanId job \<mapsto>
              s\<lparr>status := Failed, finishedAt := Some (clock env),
                errorMsg := Some (str_or (sv_error (validateAndParseSitemap (platform_of env)
                                   (job_sitemapUrl job))) ''Invalid sitemap'')\<rparr>)\<rparr>),
      Inl (Error (str_or (sv_error (validateAndParseSitemap (platform_of env)
                            (job_sitemapUrl job))) ''Invalid sitemap'')))"
  unfolding scanWorker_def scanWorker_try_def
  using row invalid
  by (simp add: markProcessing_def scan_update_def scanWorker_catch_def Let_def)

lemma markProcessing_sets_processing:
  "scan_tbl db (job_scanId job) = Some s \<Longrightarrow>
     markProcessing job db = Inr (db\<lparr>scan_tbl := (scan_tbl db)(job_scanId job \<mapsto> s\<lparr>status := Processing\<rparr>)\<rparr>)"
  by (simp add: markProcessing_def scan_update_def)

lemma cancelScan_terminal:
  "scan_tbl db sid = Some s \<Longrightarrow> userId s = uid \<Longrightarrow> status s = Success \<or> status s = Failed \<Longrightarrow>
     cancelScan sid uid now db =
       (db, Inl (ConflictError (''Cannot cancel scan with status: '' @ showStatus (status s))))"
  by (auto simp: cancelScan_def)

lemma cancelScan_active:
  "scan_tbl db sid = Some s \<Longrightarrow> userId s = uid \<Longrightarrow> status s = Pending \<or> status s = Processing \<Longrightarrow>
     cancelScan sid uid now db =
       (db\<lparr>scan_tbl := (scan_tbl db)(sid \<mapsto> s\<lparr>status := Failed, finishedAt := Some now,
                                                errorMsg := Some ''Cancelled by user''\<rparr>)\<rparr>, Inr True)"
  by (auto simp: cancelScan_def scan_update_def)


text \<open>One execution of the worker on an existing scan leaves it in a terminal status,
  whatever its status was before.\<close>

lemma refundIfDeducted_scan_tbl: "scan_tbl (refundIfDeducted job db) = scan_tbl db"
  by (simp add: refundIfDeducted_def split: option.splits)

lemma scanWorker_try_row:
  assumes "scan_tbl db (job_scanId job) = Some s"
  shows "\<exists>s'. scan_tbl (fst (scanWorker_try env job db)) (job_scanId job) = Some s'
           \<and> (\<forall>smry. snd (scanWorker_try env job db) = Inr smry \<longrightarrow> status s' = Success)"
  using assms
  unfolding scanWorker_try_def markProcessing_def scan_update_def
  by (auto simp: Let_def split: prod.splits sum.splits option.splits)

lemma scanWorker_ends_terminal:
  assumes "scan_tbl db (job_scanId job) = Some s"
  shows "statusOf (fst (scanWorker env job db)) (job_scanId job) = Some Success
       \<or> statusOf (fst (scanWorker env job db)) (job_scanId job) = Some Failed"
proof -
  from scanWorker_try_row [OF assms, of env] obtain s' where
    row: "scan_tbl (fst (scanWorker_try env job db)) (job_scanId job) = Some s'"
    and ok: "\<forall>smry. snd (scanWorker_try env job db) = Inr smry \<longrightarrow> status s' = Success"
    by blast
  show ?thesis
  proof (cases "snd (scanWorker_try env job db)")
    case (Inr smry)
    with row ok show ?thesis
      by (cases "scanWorker_try env job db") (simp add: scanWorker_def statusOf_def)
  next
    case (Inl e)
    with row show ?thesis
      by (cases "scanWorker_try env job db")
         (simp add: scanWorker_def scanWorker_catch_def scan_update_def statusOf_def
            refundIfDeducted_scan_tbl)
  qed
qed

lemma worker_success_effect:
  assumes row: "scan_tbl db (job_scanId job) = Some s"
    and valid: "sv_isValid (validateAndParseSitemap (platform_of env) (job_sitemapUrl job))"
    and urls: "sv_urls (validateAndParseSitemap (platform_of env) (job_sitemapUrl job)) = urls"
    and bal: "credit_tbl (credits db) (job_userId job) = Some b"
    and enough: "int (length urls) \<le> b"
    and ok: "createManyError env = None"
  shows "\<exists>smry. snd (scanWorker env job db) = Inr smry"
    and "statusOf (fst (scanWorker env job db)) (job_scanId job) = Some Success"
    and "map_option totalUrls (scan_tbl (fst (scanWorker env job db)) (job_scanId job))
           = Some (length urls)"
    and "balanceOf (fst (scanWorker env job db)) (job_userId job) = Some (b - int (length urls))"
    and "audit (credits (fst (scanWorker env job db))) = audit (credits db) @
           [CreditsDeducted (job_userId job) (int (length urls))
              (''sitemap_scan_'' @ showNat (job_scanId job))]"
  by (simp_all add: worker_success [OF assms] statusOf_def balanceOf_def)

lemma runAttempts_two:
  "snd (scanWorker env1 job db) = Inl e \<Longrightarrow> snd (scanWorker env2 job (fst (scanWorker env1 job db))) = Inr smry
     \<Longrightarrow> runAttempts [env1, env2] job db = fst (scanWorker env2 job (fst (scanWorker env1 job db)))"
  by (cases "scanWorker env1 job db"; cases "scanWorker env2 job (fst (scanWorker env1 job db))")
     auto


lemma deductedFor_append:
  "deductedFor tag (xs @ ys) = deductedFor tag xs + deductedFor tag ys"
  by (induction tag xs rule: deductedFor.induct) simp_all

lemmas sample_defs = sample_env_def sample_platform_def sample_pages_def sample_parseURL_def
  sample_job_def sample_db_def sample_scan_def unreachable_env_def

lemmas sitemap_defs = validateAndParseSitemap_def fetchSitemap_def parseSitemap_def
  extractUrlsFromParsedXml_def extractUrls_try_def validation_validateUrl_def isValidHttpUrl_def trim_def isSpace_def
  response_ok_def

lemma sample_sitemap_5:
  "validateAndParseSitemap (platform_of (sample_env 5 failure)) (job_sitemapUrl sample_job) =
     \<lparr>sv_isValid = True, sv_error = None, sv_urlCount = 5,
      sv_urls = [''https://site.test/p1'', ''https://site.test/p2'', ''https://site.test/p3'',
                 ''https://site.test/p4'', ''https://site.test/p5'']\<rparr>"
  by (simp add: sample_defs sitemap_defs Let_def)

lemma sample_sitemap_3:
  "validateAndParseSitemap (platform_of (sample_env 3 failure)) (job_sitemapUrl sample_job) =
     \<lparr>sv_isValid = True, sv_error = None, sv_urlCount = 3,
      sv_urls = [''https://site.test/p1'', ''https://site.test/p2'', ''https://site.test/p3'']\<rparr>"
  by (simp add: sample_defs sitemap_defs Let_def)

lemma sample_sitemap_unreachable:
  "validateAndParseSitemap (platform_of unreachable_env) (job_sitemapUrl sample_job) =
     \<lparr>sv_isValid = False, sv_error = Some ''Failed to fetch sitemap: HTTP 404: Not Found'',
      sv_urlCount = 0, sv_urls = []\<rparr>"
  by (simp add: sample_defs sitemap_defs Let_def showNat.simps digit_def)

lemma sample_row: "scan_tbl (sample_db b) (job_scanId sample_job) = Some sample_scan"
  by (simp add: sample_db_def sample_job_def)

lemma sample_balance: "credit_tbl (credits (sample_db b)) (job_userId sample_job) = Some b"
  by (simp add: sample_db_def sample_job_def)

lemma sample_max: "maxSitemapUrls (platform_of (sample_env n failure)) \<le> 10000"
  by (simp add: sample_env_def sample_platform_def)

lemma showNat_digits: "showNat 7 = ''7''" "showNat 5 = ''5''" "showNat 3 = ''3''" "showInt 2 = ''2''"
  by (simp_all add: showNat.simps showInt_def digit_def)

lemma Suc5: "Suc (Suc (Suc (Suc (Suc 0)))) = 5" by simp
lemma Suc3: "Suc (Suc (Suc 0)) = 3" by simp

lemma sample_insufficient:
  "scanWorker (sample_env 5 None) sample_job (sample_db 2) =
     ((sample_db 2)
        \<lparr>credits := (credits (sample_db 2))
           \<lparr>credit_tbl := (credit_tbl (credits (sample_db 2)))(job_userId sample_job \<mapsto> 7),
            audit := audit (credits (sample_db 2)) @
               [CreditsAdded (job_userId sample_job) 5
                  (''refund: scan_failure_'' @ showNat (job_scanId sample_job))]\<rparr>,
         scan_tbl := (scan_tbl (sample_db 2))(job_scanId sample_job \<mapsto>
            sample_scan\<lparr>totalUrls := 5, status := Failed,
              finishedAt := Some (clock (sample_env 5 None)),
              errorMsg := Some (''Insufficient credits. Required: '' @ showNat 5 @
                                '', Available: '' @ showInt 2)\<rparr>)\<rparr>,
      Inl (Error (''Insufficient credits. Required: '' @ showNat 5 @
                  '', Available: '' @ showInt 2)))"
  using worker_insufficient [OF sample_row, of "sample_env 5 None" _ 2,
          OF _ refl sample_max sample_balance]
  by (simp add: sample_sitemap_5 Suc5)


lemma sample_job_ids: "job_scanId sample_job = 7" "job_userId sample_job = 1"
  by (simp_all add: sample_job_def)

lemma sample_sitemap_3_facts:
  "sv_isValid (validateAndParseSitemap (platform_of (sample_env 3 failure)) (job_sitemapUrl sample_job))"
  "length (sv_urls (validateAndParseSitemap (platform_of (sample_env 3 failure))
      (job_sitemapUrl sample_job))) = 3"
  by (simp_all add: sample_sitemap_3)

lemma sample_ok: "createManyError (sample_env n None) = None"
  by (simp add: sample_env_def)


lemma sample_first_attempt_fails:
  "scanWorker (sample_env 3 (Some ''connection lost'')) sample_job (sample_db 3) =
     (\<lparr>credits = \<lparr>credit_tbl = [1 \<mapsto> 3],
                    audit = [CreditsDeducted 1 3 ''sitemap_scan_7'',
                             CreditsAdded 1 3 ''refund: scan_failure_7'']\<rparr>,
       scan_tbl = [7 \<mapsto> \<lparr>userId = 1, sitemapUrl = ''https://site.test/sitemap.xml'',
                          status = Failed, totalUrls = 3, finishedAt = Some 100,
                          errorMsg = Some ''connection lost''\<rparr>],
       scanResult_tbl = []\<rparr>,
      Inl (Error ''connection lost''))"
proof -
  have "createManyError (sample_env 3 (Some ''connection lost'')) = Some ''connection lost''"
    by (simp add: sample_env_def)
  from worker_fails_after_deduction [OF sample_row _ refl sample_max sample_balance _ this, of 3]
  have "scanWorker (sample_env 3 (Some ''connection lost'')) sample_job (sample_db 3) =
     ((sample_db 3)
        \<lparr>credits := (credits (sample_db 3))
           \<lparr>credit_tbl := (credit_tbl (credits (sample_db 3)))(job_userId sample_job \<mapsto> 3),
            audit := audit (credits (sample_db 3)) @
               [CreditsDeducted (job_userId sample_job) 3
                  (''sitemap_scan_'' @ showNat (job_scanId sample_job)),
                CreditsAdded (job_userId sample_job) 3
                  (''refund: scan_failure_'' @ showNat (job_scanId sample_job))]\<rparr>,
         scan_tbl := (scan_tbl (sample_db 3))(job_scanId sample_job \<mapsto>
            sample_scan\<lparr>totalUrls := 3, status := Failed,
              finishedAt := Some (clock (sample_env 3 (Some ''connection lost''))),
              errorMsg := Some ''connection lost''\<rparr>)\<rparr>,
      Inl (Error ''connection lost''))"
    by (simp add: sample_sitemap_3 Suc3)
  then show ?thesis
    by (simp add: sample_db_def sample_job_def sample_env_def sample_scan_def showNat_digits)
qed



lemma sample_unreachable_fails:
  "scanWorker unreachable_env sample_job (sample_db 3) =
     (\<lparr>credits = \<lparr>credit_tbl = [1 \<mapsto> 3], audit = []\<rparr>,
       scan_tbl = [7 \<mapsto> \<lparr>userId = 1, sitemapUrl = ''https://site.test/sitemap.xml'',
                          status = Failed, totalUrls = 0, finishedAt = Some 50,
                          errorMsg = Some ''Failed to fetch sitemap: HTTP 404: Not Found''\<rparr>],
       scanResult_tbl = []\<rparr>,
      Inl (Error ''Failed to fetch sitemap: HTTP 404: Not Found''))"
proof -
  have invalid: "\<not> sv_isValid (validateAndParseSitemap (platform_of unreachable_env)
                     (job_sitemapUrl sample_job))"
    by (simp add: sample_sitemap_unreachable)
  show ?thesis
    unfolding worker_sitemap_failure [OF sample_row invalid] sample_sitemap_unreachable
    by (simp add: refundIfDeducted_def str_or_def sample_job_ids)
       (simp add: sample_db_def sample_scan_def unreachable_env_def)
qed


text \<open>
  C1: the worker fails between persisting the URL count and deducting. The sitemap lists
  5 pages and the user holds 2 credits: the scan ends failed with the message naming
  required 5 and available 2, and nothing is deducted; but the failure handler, which
  decides on the persisted \<^verbatim>\<open>totalUrls\<close>, refunds 5 credits that were never deducted,
  and the balance rises from 2 to 7.
\<close>

theorem scanWorker_refunds_without_deduction:
  "scanWorker (sample_env 5 None) sample_job (sample_db 2) =
     (\<lparr>credits = \<lparr>credit_tbl = [1 \<mapsto> 7],
                    audit = [CreditsAdded 1 5 ''refund: scan_failure_7'']\<rparr>,
       scan_tbl = [7 \<mapsto> \<lparr>userId = 1, sitemapUrl = ''https://site.test/sitemap.xml'',
                          status = Failed, totalUrls = 5, finishedAt = Some 100,
                          errorMsg = Some ''Insufficient credits. Required: 5, Available: 2''\<rparr>],
       scanResult_tbl = []\<rparr>,
      Inl (Error ''Insufficient credits. Required: 5, Available: 2''))"
  unfolding sample_insufficient
  by (simp add: sample_db_def sample_job_def sample_env_def sample_scan_def showNat_digits)



text \<open>
  C2: the status of scan 7 over time. An attempt that cannot fetch the sitemap leaves the
  scan failed; the queue's retry sets it back to processing and ends in success; and a
  scan cancelled while pending (status failed) is set to success by the worker that runs
  after the cancellation. \<^verbatim>\<open>cancelScan\<close> itself refuses a terminal scan
  (lemma \<open>cancelScan_terminal\<close>); the worker does not look at the status: it sets
  processing first (lemma \<open>markProcessing_sets_processing\<close>) and a terminal status last
  (lemma \<open>scanWorker_ends_terminal\<close>), whatever the status was.
\<close>

theorem terminal_status_overwritten:
  "statusOf (sample_db 3) 7 = Some Pending
   \<and> statusOf (fst (scanWorker unreachable_env sample_job (sample_db 3))) 7 = Some Failed
   \<and> (case markProcessing sample_job (fst (scanWorker unreachable_env sample_job (sample_db 3))) of
         Inl e \<Rightarrow> None | Inr db \<Rightarrow> statusOf db 7) = Some Processing
   \<and> statusOf (processJob [unreachable_env, sample_env 3 None] sample_job (sample_db 3)) 7
         = Some Success
   \<and> statusOf (fst (cancelScan 7 1 60 (sample_db 3))) 7 = Some Failed
   \<and> statusOf (fst (scanWorker (sample_env 3 None) sample_job
                      (fst (cancelScan 7 1 60 (sample_db 3))))) 7 = Some Success"
proof -
  let ?db1 = "fst (scanWorker unreachable_env sample_job (sample_db 3))"
  let ?dbc = "fst (cancelScan 7 1 60 (sample_db 3))"
  have p: "statusOf (sample_db 3) 7 = Some Pending"
    by (simp add: statusOf_def sample_db_def sample_scan_def)
  have row1: "scan_tbl ?db1 (job_scanId sample_job) =
      Some \<lparr>userId = 1, sitemapUrl = ''https://site.test/sitemap.xml'',
            status = Failed, totalUrls = 0, finishedAt = Some 50,
            errorMsg = Some ''Failed to fetch sitemap: HTTP 404: Not Found''\<rparr>"
    and bal1: "credit_tbl (credits ?db1) (job_userId sample_job) = Some 3"
    and fail1: "snd (scanWorker unreachable_env sample_job (sample_db 3)) =
                  Inl (Error ''Failed to fetch sitemap: HTTP 404: Not Found'')"
    by (simp_all add: sample_unreachable_fails sample_job_ids)
  have f: "statusOf ?db1 7 = Some Failed"
    using row1 by (simp add: statusOf_def sample_job_ids)
  have m: "(case markProcessing sample_job ?db1 of Inl e \<Rightarrow> None | Inr db \<Rightarrow> statusOf db 7)
             = Some Processing"
    by (simp add: markProcessing_sets_processing [OF row1] statusOf_def sample_job_ids)
  have enough: "int (length (sv_urls (validateAndParseSitemap (platform_of (sample_env 3 None))
      (job_sitemapUrl sample_job)))) \<le> 3"
    by (simp add: sample_sitemap_3_facts)
  note second = worker_success_effect [OF row1 sample_sitemap_3_facts(1) refl bal1 enough sample_ok]
  from second(1) obtain smry where
    ok2: "snd (scanWorker (sample_env 3 None) sample_job ?db1) = Inr smry" by blast
  have "take attempts [unreachable_env, sample_env 3 None] = [unreachable_env, sample_env 3 None]"
    by (simp add: attempts_def)
  then have run: "processJob [unreachable_env, sample_env 3 None] sample_job (sample_db 3)
           = fst (scanWorker (sample_env 3 None) sample_job ?db1)"
    unfolding processJob_def by (simp only: runAttempts_two [OF fail1 ok2])
  have s: "statusOf (processJob [unreachable_env, sample_env 3 None] sample_job (sample_db 3)) 7
         = Some Success"
    unfolding run using second(2) by (simp add: sample_job_ids)
  have cancel: "cancelScan 7 1 60 (sample_db 3) =
      ((sample_db 3)\<lparr>scan_tbl := (scan_tbl (sample_db 3))(7 \<mapsto>
          sample_scan\<lparr>status := Failed, finishedAt := Some 60,
                        errorMsg := Some ''Cancelled by user''\<rparr>)\<rparr>, Inr True)"
    by (rule cancelScan_active) (simp_all add: sample_db_def sample_scan_def)
  have rowc: "scan_tbl ?dbc (job_scanId sample_job) =
      Some (sample_scan\<lparr>status := Failed, finishedAt := Some 60,
                        errorMsg := Some ''Cancelled by user''\<rparr>)"
    and balc: "credit_tbl (credits ?dbc) (job_userId sample_job) = Some 3"
    unfolding cancel by (simp_all add: sample_job_ids sample_db_def)
  have c: "statusOf ?dbc 7 = Some Failed"
    using rowc by (simp add: statusOf_def sample_job_ids)
  note after = worker_success_effect [OF rowc sample_sitemap_3_facts(1) refl balc enough sample_ok]
  have a: "statusOf (fst (scanWorker (sample_env 3 None) sample_job ?dbc)) 7 = Some Success"
    using after(2) by (simp add: sample_job_ids)
  from p f m s c a show ?thesis by blast
qed


text \<open>
  C3, as stated, fails: the first attempt deducts 3 credits and fails while saving the
  results, the retry deducts 3 credits again; 6 credits were deducted for scan 7, whose
  URL count is 3.
\<close>

theorem retry_double_deduction_counterexample:
  "deductedFor ''sitemap_scan_7''
     (audit (credits (processJob [sample_env 3 (Some ''connection lost''), sample_env 3 None]
                        sample_job (sample_db 3)))) = 6
   \<and> map_option totalUrls
       (scan_tbl (processJob [sample_env 3 (Some ''connection lost''), sample_env 3 None]
                        sample_job (sample_db 3)) 7) = Some 3"
proof -
  let ?e1 = "sample_env 3 (Some ''connection lost'')" and ?e2 = "sample_env 3 None"
  let ?db1 = "fst (scanWorker ?e1 sample_job (sample_db 3))"
  have row1: "scan_tbl ?db1 (job_scanId sample_job) =
      Some \<lparr>userId = 1, sitemapUrl = ''https://site.test/sitemap.xml'',
                          status = Failed, totalUrls = 3, finishedAt = Some 100,
                          errorMsg = Some ''connection lost''\<rparr>"
    and bal1: "credit_tbl (credits ?db1) (job_userId sample_job) = Some 3"
    and audit1: "audit (credits ?db1) = [CreditsDeducted 1 3 ''sitemap_scan_7'',
                             CreditsAdded 1 3 ''refund: scan_failure_7'']"
    and fail1: "snd (scanWorker ?e1 sample_job (sample_db 3)) = Inl (Error ''connection lost'')"
    by (simp_all add: sample_first_attempt_fails sample_job_ids)
  note second = worker_success_effect [OF row1 sample_sitemap_3_facts(1) refl bal1 _ sample_ok]
  have enough: "int (length (sv_urls (validateAndParseSitemap (platform_of ?e2)
      (job_sitemapUrl sample_job)))) \<le> 3"
    by (simp add: sample_sitemap_3_facts)
  from second(1) [OF enough] obtain smry where
    ok2: "snd (scanWorker ?e2 sample_job ?db1) = Inr smry" by blast
  have run: "processJob [?e1, ?e2] sample_job (sample_db 3) = fst (scanWorker ?e2 sample_job ?db1)"
  proof -
    have "take attempts [?e1, ?e2] = [?e1, ?e2]" by (simp add: attempts_def)
    then show ?thesis
      unfolding processJob_def by (simp only: runAttempts_two [OF fail1 ok2])
  qed
  show ?thesis
    unfolding run
    using second(3) [OF enough] second(5) [OF enough]
    by (simp add: audit1 sample_job_ids sample_sitemap_3_facts showNat_digits)
qed
text \<open>
  C3, amended: a retried job deducts again, since every attempt that reaches the deduction
  step deducts its URL count and nothing records an earlier deduction. What holds, with
  at most 10000 URLs per sitemap: an attempt that fails after deducting refunds the same
  amount in its failure handler and leaves the balance as it found it, so that after the
  successful retry the balance is lower by exactly the retry's URL count, the ledger
  showing two deductions and one refund for the scan.
\<close>

theorem retried_job_deducts_again:
  assumes row: "scan_tbl db (job_scanId job) = Some s"
    and bal: "balanceOf db (job_userId job) = Some b"
    and valid1: "sv_isValid (validateAndParseSitemap (platform_of env1) (job_sitemapUrl job))"
    and urls1: "sv_urls (validateAndParseSitemap (platform_of env1) (job_sitemapUrl job)) = urls1"
    and max1: "maxSitemapUrls (platform_of env1) \<le> 10000"
    and enough1: "int (length urls1) \<le> b"
    and fails1: "createManyError env1 = Some m"
    and valid2: "sv_isValid (validateAndParseSitemap (platform_of env2) (job_sitemapUrl job))"
    and urls2: "sv_urls (validateAndParseSitemap (platform_of env2) (job_sitemapUrl job)) = urls2"
    and enough2: "int (length urls2) \<le> b"
    and ok2: "createManyError env2 = None"
  shows "balanceOf (fst (scanWorker env1 job db)) (job_userId job) = Some b
     \<and> statusOf (fst (scanWorker env1 job db)) (job_scanId job) = Some Failed
     \<and> balanceOf (runAttempts [env1, env2] job db) (job_userId job) = Some (b - int (length urls2))
     \<and> statusOf (runAttempts [env1, env2] job db) (job_scanId job) = Some Success
     \<and> map_option totalUrls (scan_tbl (runAttempts [env1, env2] job db) (job_scanId job))
           = Some (length urls2)
     \<and> audit (credits (runAttempts [env1, env2] job db)) =
           audit (credits db) @
           [CreditsDeducted (job_userId job) (int (length urls1))
              (''sitemap_scan_'' @ showNat (job_scanId job)),
            CreditsAdded (job_userId job) (int (length urls1))
              (''refund: scan_failure_'' @ showNat (job_scanId job)),
            CreditsDeducted (job_userId job) (int (length urls2))
              (''sitemap_scan_'' @ showNat (job_scanId job))]
     \<and> deductedFor (''sitemap_scan_'' @ showNat (job_scanId job))
           (audit (credits (runAttempts [env1, env2] job db))) =
         deductedFor (''sitemap_scan_'' @ showNat (job_scanId job)) (audit (credits db))
           + int (length urls1) + int (length urls2)"
proof -
  from bal have bal': "credit_tbl (credits db) (job_userId job) = Some b"
    by (simp add: balanceOf_def)
  note first = worker_fails_after_deduction [OF row valid1 urls1 max1 bal' enough1 fails1]
  define db1 where "db1 = fst (scanWorker env1 job db)"
  have db1: "scanWorker env1 job db = (db1, Inl (Error m))"
    by (simp add: db1_def first)
  have row1: "scan_tbl db1 (job_scanId job) =
      Some (s\<lparr>totalUrls := length urls1, status := Failed, finishedAt := Some (clock env1),
              errorMsg := Some m\<rparr>)"
    by (simp add: db1_def first)
  have bal1: "credit_tbl (credits db1) (job_userId job) = Some b"
    by (simp add: db1_def first)
  have audit1: "audit (credits db1) = audit (credits db) @
           [CreditsDeducted (job_userId job) (int (length urls1))
              (''sitemap_scan_'' @ showNat (job_scanId job)),
            CreditsAdded (job_userId job) (int (length urls1))
              (''refund: scan_failure_'' @ showNat (job_scanId job))]"
    by (simp add: db1_def first)
  note second = worker_success [OF row1 valid2 urls2 bal1 enough2 ok2]
  have run: "runAttempts [env1, env2] job db = fst (scanWorker env2 job db1)"
    by (simp add: db1 second)
  show ?thesis
    unfolding run
    by (simp add: second audit1 bal1 row1 balanceOf_def statusOf_def deductedFor_append
          db1_def [symmetric])
qed
theorem retried_job_deducts_again_witness:
  "balanceOf (sample_db 3) 1 = Some 3
   \<and> balanceOf (runAttempts [sample_env 3 (Some ''connection lost''), sample_env 3 None]
         sample_job (sample_db 3)) 1 = Some 0
   \<and> statusOf (runAttempts [sample_env 3 (Some ''connection lost''), sample_env 3 None]
         sample_job (sample_db 3)) 7 = Some Success
   \<and> audit (credits (runAttempts [sample_env 3 (Some ''connection lost''), sample_env 3 None]
         sample_job (sample_db 3))) =
       [CreditsDeducted 1 3 ''sitemap_scan_7'', CreditsAdded 1 3 ''refund: scan_failure_7'',
        CreditsDeducted 1 3 ''sitemap_scan_7'']"
proof -
  have bal: "balanceOf (sample_db 3) (job_userId sample_job) = Some 3"
    by (simp add: balanceOf_def sample_balance)
  have fails: "createManyError (sample_env 3 (Some ''connection lost'')) = Some ''connection lost''"
    by (simp add: sample_env_def)
  have enough: "\<And>f. int (length (sv_urls (validateAndParseSitemap (platform_of (sample_env 3 f))
      (job_sitemapUrl sample_job)))) \<le> 3"
    by (simp add: sample_sitemap_3_facts)
  from retried_job_deducts_again [OF sample_row bal sample_sitemap_3_facts(1) refl sample_max enough fails
              sample_sitemap_3_facts(1) refl enough sample_ok]
  show ?thesis
    using bal by (simp add: sample_job_ids sample_sitemap_3_facts showNat_digits sample_db_def)
qed

end
